theory Spec2Isabelle
  imports Complex_Main "HOL-Library.Multiset"
begin

section \<open>The shortbus pipe client (examples/client.py)\<close>

text \<open>
  The client talks to a broker process over a pair of pipes, one JSON object per line.
  A reader thread decodes the broker's lines and routes them (\<open>_handle_response\<close>);
  the public operations write one command and wait for the reader to fill their result.
  The development below models the client object as a record that is passed through
  every operation, an exception as a value, and the reader thread's work during a
  caller's wait as the list of lines it consumes in that time.
\<close>

subsection \<open>Decoded JSON values\<close>

text \<open>
  What \<open>json.loads\<close> returns: \<open>None\<close>, a bool, an int, a float, a str, a list or a
  dict. A Python float is modelled by its exact value when it is finite. Strings are
  taken over 8-bit characters. A dict is an association list with distinct keys in
  insertion order, read through \<open>map_of\<close>.
\<close>

datatype pyfloat = Finite rat | PosInf | NegInf | NaN

datatype json =
    JNull
  | JBool bool
  | JInt int
  | JFloat pyfloat
  | JStr string
  | JArr "json list"
  | JObj "(string \<times> json) list"

type_synonym pydict = "(string \<times> json) list"

subsection \<open>Exceptions\<close>

text \<open>
  The exception classes that occur. \<open>BaseOnly\<close> stands for an exception that derives
  from \<open>BaseException\<close> but not from \<open>Exception\<close> (\<open>SystemExit\<close>, \<open>KeyboardInterrupt\<close>,
  \<open>GeneratorExit\<close>): an \<open>except Exception\<close> clause lets it pass. \<open>UserError\<close> is any
  other subclass of \<open>Exception\<close>. \<open>Exception\<close> carries its argument, which
  \<open>publish\<close> and \<open>subscribe\<close> take from the broker's record.
\<close>

datatype pyexc =
    TimeoutError string
  | Exception json
  | TypeError string
  | AttributeError string
  | ValueError string
  | BrokenPipeError
  | JSONDecodeError string
  | UserError string
  | BaseOnly string

fun is_Exception :: "pyexc \<Rightarrow> bool" where
  "is_Exception (BaseOnly _) = False"
| "is_Exception _ = True"

fun is_JSONDecodeError :: "pyexc \<Rightarrow> bool" where
  "is_JSONDecodeError (JSONDecodeError _) = True"
| "is_JSONDecodeError _ = False"

subsection \<open>Dict operations\<close>

text \<open>\<open>d.get(k)\<close>: the value, or \<open>None\<close> when the key is absent.\<close>

definition dict_get :: "pydict \<Rightarrow> string \<Rightarrow> json" where
  "dict_get d k = (case map_of d k of None \<Rightarrow> JNull | Some v \<Rightarrow> v)"

text \<open>\<open>d.get(k, default)\<close>.\<close>

definition dict_get_default :: "pydict \<Rightarrow> string \<Rightarrow> json \<Rightarrow> json" where
  "dict_get_default d k dflt = (case map_of d k of None \<Rightarrow> dflt | Some v \<Rightarrow> v)"

text \<open>\<open>d[k] = v\<close>: replaces the value in place, or appends a new entry.\<close>

primrec dict_set :: "'k \<Rightarrow> 'v \<Rightarrow> ('k \<times> 'v) list \<Rightarrow> ('k \<times> 'v) list" where
  "dict_set k v [] = [(k, v)]"
| "dict_set k v (p # ps) = (if fst p = k then (k, v) # ps else p # dict_set k v ps)"

text \<open>\<open>del d[k]\<close> and the removal done by \<open>d.pop(k)\<close>, for a key that is present.\<close>

definition dict_del :: "'k \<Rightarrow> ('k \<times> 'v) list \<Rightarrow> ('k \<times> 'v) list" where
  "dict_del k d = filter (\<lambda>p. fst p \<noteq> k) d"

text \<open>\<open>d.update(other)\<close>: sets every entry of \<open>other\<close>, in its order.\<close>

definition dict_update :: "pydict \<Rightarrow> pydict \<Rightarrow> pydict" where
  "dict_update d other = fold (\<lambda>p acc. dict_set (fst p) (snd p) acc) other d"

text \<open>
  Membership of a decoded value in a dict whose keys are ints (\<open>self.callbacks\<close>):
  lists and dicts are unhashable and raise \<open>TypeError\<close>; a bool or an integral float
  is equal to the int of the same value; \<open>None\<close> and strings equal no int.
  The result is the int key that the value denotes, if any.
\<close>

fun int_key :: "json \<Rightarrow> pyexc + int option" where
  "int_key JNull = Inr None"
| "int_key (JBool b) = Inr (Some (if b then 1 else 0))"
| "int_key (JInt n) = Inr (Some n)"
| "int_key (JFloat (Finite q)) = Inr (if of_int \<lfloor>q\<rfloor> = q then Some \<lfloor>q\<rfloor> else None)"
| "int_key (JFloat _) = Inr None"
| "int_key (JStr _) = Inr None"
| "int_key (JArr _) = Inl (TypeError ''unhashable type: list'')"
| "int_key (JObj _) = Inl (TypeError ''unhashable type: dict'')"

text \<open>The same for a dict whose keys are strs (\<open>self.message_handlers\<close>).\<close>

fun str_key :: "json \<Rightarrow> pyexc + string option" where
  "str_key (JStr s) = Inr (Some s)"
| "str_key (JArr _) = Inl (TypeError ''unhashable type: list'')"
| "str_key (JObj _) = Inl (TypeError ''unhashable type: dict'')"
| "str_key _ = Inr None"

subsection \<open>The client object\<close>

text \<open>
  A message handler is a callable supplied by the user. It is identified by a number,
  and its behaviour on a message is to return (\<open>None\<close>) or to raise.
\<close>

datatype handler = Handler (hid: nat) (run: "pydict \<Rightarrow> pyexc option")

text \<open>
  The callback that every operation passes to \<open>_send\<close> is a closure over the
  operation's local \<open>result\<close> dict and \<open>event\<close>; the pair lives at an address of the
  store \<open>heap\<close>, and the closure is that address.
\<close>

record waiter =
  result :: pydict
  event :: bool

datatype callback = Callback nat

text \<open>The lines the client prints to its own \<open>sys.stderr\<close>.\<close>

datatype log_entry =
    ParseErrorLog pyexc
  | ReaderErrorLog pyexc
  | HandlerErrorLog pyexc
  | ErrorLog json

text \<open>
  The fields of \<open>ShortbusClient\<close>, followed by the objects it refers to: the pipe to
  the broker's standard input (the commands written so far, whether the client has
  closed it, whether the broker's end is gone), the printed log, whether the reader
  thread is still in its loop, the store of waiters, and the calls made to handlers.
\<close>

record client =
  request_id :: int
  callbacks :: "(int \<times> callback) list"
  message_handlers :: "(string \<times> handler list) list"
  running :: bool
  stdin :: "pydict list"
  stdin_closed :: bool
  stdin_broken :: bool
  stderr :: "log_entry list"
  reader_alive :: bool
  heap :: "nat \<Rightarrow> waiter"
  next_addr :: nat
  calls :: "(nat \<times> pydict) list"

text \<open>\<open>__init__\<close>, once the broker process is spawned and both threads are started.\<close>

definition init :: client where
  "init = \<lparr> request_id = 0, callbacks = [], message_handlers = [], running = True,
            stdin = [], stdin_closed = False, stdin_broken = False, stderr = [],
            reader_alive = True, heap = (\<lambda>_. \<lparr> result = [], event = False \<rparr>),
            next_addr = 0, calls = [] \<rparr>"

subsection \<open>The dispatcher: \<open>_handle_response\<close>\<close>

text \<open>
  The closure \<open>callback(response)\<close>: \<open>result.update(response); event.set()\<close>.
\<close>

fun call_callback :: "callback \<Rightarrow> pydict \<Rightarrow> client \<Rightarrow> client" where
  "call_callback (Callback a) response c =
     c\<lparr>heap := (heap c)(a := \<lparr> result = dict_update (result (heap c a)) response,
                                event = True \<rparr>)\<rparr>"

text \<open>
  The loop over a topic's handlers (lines 70 to 74): each call is recorded; an
  exception of class \<open>Exception\<close> is printed and the loop goes on; any other
  exception leaves the loop.
\<close>

fun run_handlers :: "handler list \<Rightarrow> pydict \<Rightarrow> client \<Rightarrow> pyexc option \<times> client" where
  "run_handlers [] data c = (None, c)"
| "run_handlers (h # hs) data c =
     (let c1 = c\<lparr>calls := calls c @ [(hid h, data)]\<rparr> in
      case run h data of
        None \<Rightarrow> run_handlers hs data c1
      | Some e \<Rightarrow>
          if is_Exception e
          then run_handlers hs data (c1\<lparr>stderr := stderr c1 @ [HandlerErrorLog e]\<rparr>)
          else (Some e, c1))"

text \<open>Lines 84 and 85: a record of type \<open>error\<close> is printed.\<close>

definition report_error :: "pydict \<Rightarrow> client \<Rightarrow> client" where
  "report_error data c =
     (if dict_get data ''type'' = JStr ''error''
      then c\<lparr>stderr := stderr c @ [ErrorLog (dict_get data ''error'')]\<rparr>
      else c)"

text \<open>
  \<open>_handle_response(data)\<close> for a dict \<open>data\<close>. The first component of the result
  is the exception that leaves the function, if any.
\<close>

definition handle_response :: "pydict \<Rightarrow> client \<Rightarrow> pyexc option \<times> client" where
  "handle_response data c =
     (if dict_get data ''type'' = JStr ''message'' then
        (case str_key (dict_get data ''topic'') of
           Inl e \<Rightarrow> (Some e, c)
         | Inr None \<Rightarrow> (None, c)
         | Inr (Some topic) \<Rightarrow>
             (case map_of (message_handlers c) topic of
                None \<Rightarrow> (None, c)
              | Some hs \<Rightarrow> run_handlers hs data c))
      else
        (let rid = dict_get data ''request_id'' in
         case (if rid \<noteq> JNull then int_key rid else Inr None) of
           Inl e \<Rightarrow> (Some e, c)
         | Inr k \<Rightarrow>
             (let c1 = (case k of
                          None \<Rightarrow> c
                        | Some n \<Rightarrow>
                            (case map_of (callbacks c) n of
                               None \<Rightarrow> c
                             | Some cb \<Rightarrow>
                                 call_callback cb data (c\<lparr>callbacks := dict_del n (callbacks c)\<rparr>)))
              in (None, report_error data c1))))"

subsection \<open>The dispatcher as the specification words it\<close>

text \<open>
  The classification of section 4.4 of the specification, read literally: a push
  message is dispatched; else a record with a known, non-null \<open>request_id\<close> resolves
  its pending request; else a record of type \<open>error\<close> is logged; a record takes one
  branch only. It is compared with \<open>handle_response\<close> below.
\<close>

definition spec_dispatch :: "pydict \<Rightarrow> client \<Rightarrow> pyexc option \<times> client" where
  "spec_dispatch data c =
     (if dict_get data ''type'' = JStr ''message'' then
        (case str_key (dict_get data ''topic'') of
           Inl e \<Rightarrow> (Some e, c)
         | Inr None \<Rightarrow> (None, c)
         | Inr (Some topic) \<Rightarrow>
             (case map_of (message_handlers c) topic of
                None \<Rightarrow> (None, c)
              | Some hs \<Rightarrow> run_handlers hs data c))
      else
        (let rid = dict_get data ''request_id'' in
         case (if rid \<noteq> JNull then int_key rid else Inr None) of
           Inl e \<Rightarrow> (Some e, c)
         | Inr k \<Rightarrow>
             (case (case k of None \<Rightarrow> None | Some n \<Rightarrow> map_option (Pair n) (map_of (callbacks c) n)) of
                Some (n, cb) \<Rightarrow>
                  (None, call_callback cb data (c\<lparr>callbacks := dict_del n (callbacks c)\<rparr>))
              | None \<Rightarrow> (None, report_error data c))))"

subsection \<open>The read loop: \<open>_read_responses\<close>\<close>

text \<open>
  \<open>str.isspace\<close> on the characters below 256, and \<open>str.strip()\<close>, which removes
  leading and trailing whitespace.
\<close>

definition isspace :: "char \<Rightarrow> bool" where
  "isspace ch =
     (let n = (of_char ch :: nat)
      in (9 \<le> n \<and> n \<le> 13) \<or> (28 \<le> n \<and> n \<le> 32) \<or> n = 133 \<or> n = 160)"

definition strip :: "string \<Rightarrow> string" where
  "strip s = rev (dropWhile isspace (rev (dropWhile isspace s)))"

text \<open>
  The body of the inner \<open>try\<close> (lines 47 and 48). \<open>json.loads\<close> is the library's
  parser and is a parameter \<open>loads\<close>: it returns the decoded value or raises. A decoded
  value that is not a dict has no method \<open>get\<close>, so \<open>_handle_response\<close> raises
  \<open>AttributeError\<close> at line 67.
\<close>

definition decode_and_handle ::
  "(string \<Rightarrow> pyexc + json) \<Rightarrow> string \<Rightarrow> client \<Rightarrow> pyexc option \<times> client" where
  "decode_and_handle loads line c =
     (case loads line of
        Inl e \<Rightarrow> (Some e, c)
      | Inr (JObj data) \<Rightarrow> handle_response data c
      | Inr _ \<Rightarrow> (Some (AttributeError ''object has no attribute get''), c))"

text \<open>
  One iteration of the loop (lines 42 to 50): a line that is empty after stripping is
  skipped; a \<open>JSONDecodeError\<close> is printed and the loop goes on; any other exception
  leaves the loop.
\<close>

definition read_line ::
  "(string \<Rightarrow> pyexc + json) \<Rightarrow> string \<Rightarrow> client \<Rightarrow> pyexc option \<times> client" where
  "read_line loads line0 c =
     (let line = strip line0 in
      if line = [] then (None, c)
      else
        (case decode_and_handle loads line c of
           (None, c1) \<Rightarrow> (None, c1)
         | (Some e, c1) \<Rightarrow>
             if is_JSONDecodeError e
             then (None, c1\<lparr>stderr := stderr c1 @ [ParseErrorLog e]\<rparr>)
             else (Some e, c1)))"

text \<open>
  Leaving the loop (lines 51 to 54), normally or with the exception \<open>r\<close>: an
  \<open>Exception\<close> is printed, and \<open>finally\<close> clears \<open>running\<close>. The thread ends.
\<close>

definition reader_exit :: "pyexc option \<Rightarrow> client \<Rightarrow> client" where
  "reader_exit r c =
     (let c1 = (case r of
                  None \<Rightarrow> c
                | Some e \<Rightarrow>
                    if is_Exception e then c\<lparr>stderr := stderr c @ [ReaderErrorLog e]\<rparr> else c)
      in c1\<lparr>running := False, reader_alive := False\<rparr>)"

text \<open>
  The reader thread consumes the given lines, as long as it is in its loop. An
  exception that leaves an iteration ends the thread; the remaining lines are not read.
\<close>

fun feed :: "(string \<Rightarrow> pyexc + json) \<Rightarrow> string list \<Rightarrow> client \<Rightarrow> client" where
  "feed loads [] c = c"
| "feed loads (line # rest) c =
     (if \<not> reader_alive c then c
      else
        (case read_line loads line c of
           (None, c1) \<Rightarrow> feed loads rest c1
         | (Some e, c1) \<Rightarrow> reader_exit (Some e) c1))"

text \<open>
  The stream ends: the iteration over \<open>self.process.stdout\<close> stops at end of input
  (\<open>None\<close>) or raises a read fault.
\<close>

definition end_of_stream :: "pyexc option \<Rightarrow> client \<Rightarrow> client" where
  "end_of_stream fault c = (if reader_alive c then reader_exit fault c else c)"

text \<open>The whole of \<open>_read_responses\<close> on a stream of lines and its end.\<close>

definition read_responses ::
  "(string \<Rightarrow> pyexc + json) \<Rightarrow> string list \<Rightarrow> pyexc option \<Rightarrow> client \<Rightarrow> client" where
  "read_responses loads lines fault c = end_of_stream fault (feed loads lines c)"

text \<open>
  The waiter that line 79 finds for a record: the closure registered in
  \<open>self.callbacks\<close> under the record's \<open>request_id\<close>, if there is one.
\<close>

definition waiter_of :: "client \<Rightarrow> pydict \<Rightarrow> nat option" where
  "waiter_of c d =
     (case int_key (dict_get d ''request_id'') of
        Inr (Some n) \<Rightarrow> (case map_of (callbacks c) n of Some (Callback a) \<Rightarrow> Some a | None \<Rightarrow> None)
      | _ \<Rightarrow> None)"

text \<open>Decoded records handled one after the other, while none of them raises.\<close>

fun deliver :: "pydict list \<Rightarrow> client \<Rightarrow> client" where
  "deliver [] c = c"
| "deliver (d # ds) c =
     (case handle_response d c of
        (None, c1) \<Rightarrow> deliver ds c1
      | (Some e, c1) \<Rightarrow> c1)"

subsection \<open>Sending: \<open>_send\<close>\<close>

text \<open>
  \<open>_send(command, callback)\<close>: the counter is incremented and the callback registered
  before the write. Writing to a pipe that the client has closed raises \<open>ValueError\<close>,
  writing to a pipe whose other end is gone raises \<open>BrokenPipeError\<close>; in both cases
  the counter and the registry keep their new values. A written line is recorded as
  the command that \<open>json.dumps\<close> serialises.
\<close>

definition send :: "pydict \<Rightarrow> callback option \<Rightarrow> client \<Rightarrow> (pyexc + int) \<times> client" where
  "send command cb c =
     (let rid = request_id c + 1;
          c1 = c\<lparr>request_id := rid\<rparr>;
          command1 = dict_set ''request_id'' (JInt rid) command;
          c2 = (case cb of
                  None \<Rightarrow> c1
                | Some f \<Rightarrow> c1\<lparr>callbacks := dict_set rid f (callbacks c1)\<rparr>)
      in if stdin_closed c2 then (Inl (ValueError ''I/O operation on closed file''), c2)
         else if stdin_broken c2 then (Inl BrokenPipeError, c2)
         else (Inr rid, c2\<lparr>stdin := stdin c2 @ [command1]\<rparr>))"

subsection \<open>The public operations\<close>

text \<open>\<open>result = {}\<close> and \<open>event = threading.Event()\<close>: a fresh waiter in the store.\<close>

definition new_waiter :: "client \<Rightarrow> nat \<times> client" where
  "new_waiter c =
     (next_addr c,
      c\<lparr>heap := (heap c)(next_addr c := \<lparr> result = [], event = False \<rparr>),
        next_addr := next_addr c + 1\<rparr>)"

text \<open>
  The lines that \<open>publish\<close>, \<open>subscribe\<close>, \<open>unsubscribe\<close> and \<open>ping\<close> share: create the
  waiter, \<open>_send\<close> the command with the closure, \<open>event.wait(timeout=5.0)\<close>. The wait
  ends when the event is set or the time is over; \<open>inbound\<close> are the lines that the
  reader thread consumes until then. The value is the \<open>result\<close> dict as the caller finds
  it after the wait, or the exception that \<open>_send\<close> raised.
\<close>

definition send_and_wait ::
  "(string \<Rightarrow> pyexc + json) \<Rightarrow> pydict \<Rightarrow> string list \<Rightarrow> client \<Rightarrow> (pyexc + pydict) \<times> client" where
  "send_and_wait loads command inbound c =
     (case new_waiter c of
        (a, c1) \<Rightarrow>
          (case send command (Some (Callback a)) c1 of
             (Inl e, c2) \<Rightarrow> (Inl e, c2)
           | (Inr _, c2) \<Rightarrow>
               (let c3 = feed loads inbound c2 in (Inr (result (heap c3 a)), c3))))"

definition publish ::
  "(string \<Rightarrow> pyexc + json) \<Rightarrow> string \<Rightarrow> json \<Rightarrow> pydict option \<Rightarrow> string list \<Rightarrow> client
     \<Rightarrow> (pyexc + pydict) \<times> client" where
  "publish loads topic payload metadata inbound c =
     (case send_and_wait loads
             [(''op'', JStr ''publish''), (''topic'', JStr topic), (''payload'', payload),
              (''metadata'', JObj (case metadata of None \<Rightarrow> [] | Some m \<Rightarrow> m))]
             inbound c of
        (Inl e, c1) \<Rightarrow> (Inl e, c1)
      | (Inr res, c1) \<Rightarrow>
          (if res = [] then Inl (TimeoutError ''Publish timeout'')
           else if dict_get res ''status'' \<noteq> JStr ''ok''
           then Inl (Exception (dict_get_default res ''error'' (JStr ''Publish failed'')))
           else Inr res,
           c1))"

text \<open>Lines 130 to 132 of \<open>subscribe\<close>: the handler is appended to the topic's list.\<close>

definition register_handler :: "string \<Rightarrow> handler \<Rightarrow> client \<Rightarrow> client" where
  "register_handler topic h c =
     c\<lparr>message_handlers :=
         (case map_of (message_handlers c) topic of
            None \<Rightarrow> dict_set topic [h] (message_handlers c)
          | Some hs \<Rightarrow> dict_set topic (hs @ [h]) (message_handlers c))\<rparr>"

definition subscribe ::
  "(string \<Rightarrow> pyexc + json) \<Rightarrow> string \<Rightarrow> handler \<Rightarrow> string list \<Rightarrow> client
     \<Rightarrow> (pyexc + pydict) \<times> client" where
  "subscribe loads topic h inbound c =
     (case send_and_wait loads [(''op'', JStr ''subscribe''), (''topic'', JStr topic)]
             inbound (register_handler topic h c) of
        (Inl e, c1) \<Rightarrow> (Inl e, c1)
      | (Inr res, c1) \<Rightarrow>
          (if res = [] then Inl (TimeoutError ''Subscribe timeout'')
           else if dict_get res ''status'' \<noteq> JStr ''ok''
           then Inl (Exception (dict_get_default res ''error'' (JStr ''Subscribe failed'')))
           else Inr res,
           c1))"

text \<open>
  The states that \<open>subscribe\<close> goes through up to the end of \<open>_send\<close>, in program
  order: on entry, after line 132, after the waiter is created, after \<open>_send\<close>.
\<close>

definition subscribe_steps :: "string \<Rightarrow> handler \<Rightarrow> client \<Rightarrow> client list" where
  "subscribe_steps topic h c =
     (let c0 = register_handler topic h c;
          c1 = snd (new_waiter c0);
          c2 = snd (send [(''op'', JStr ''subscribe''), (''topic'', JStr topic)]
                      (Some (Callback (fst (new_waiter c0)))) c1)
      in [c, c0, c1, c2])"

text \<open>Lines 158 and 159 of \<open>unsubscribe\<close>.\<close>

definition remove_handlers :: "string \<Rightarrow> client \<Rightarrow> client" where
  "remove_handlers topic c =
     (if map_of (message_handlers c) topic \<noteq> None
      then c\<lparr>message_handlers := dict_del topic (message_handlers c)\<rparr>
      else c)"

definition unsubscribe ::
  "(string \<Rightarrow> pyexc + json) \<Rightarrow> string \<Rightarrow> string list \<Rightarrow> client \<Rightarrow> (pyexc + pydict) \<times> client" where
  "unsubscribe loads topic inbound c =
     send_and_wait loads [(''op'', JStr ''unsubscribe''), (''topic'', JStr topic)]
       inbound (remove_handlers topic c)"

definition ping ::
  "(string \<Rightarrow> pyexc + json) \<Rightarrow> string list \<Rightarrow> client \<Rightarrow> (pyexc + pydict) \<times> client" where
  "ping loads inbound c =
     (case send_and_wait loads [(''op'', JStr ''ping'')] inbound c of
        (Inl e, c1) \<Rightarrow> (Inl e, c1)
      | (Inr res, c1) \<Rightarrow>
          (if res = [] then Inl (TimeoutError ''Ping timeout'') else Inr res, c1))"

definition shutdown :: "client \<Rightarrow> pyexc option \<times> client" where
  "shutdown c =
     (case send [(''op'', JStr ''shutdown'')] None c of
        (Inl e, c1) \<Rightarrow> (Some e, c1)
      | (Inr _, c1) \<Rightarrow> (None, c1\<lparr>stdin_closed := True, running := False\<rparr>))"

subsection \<open>Example states and records\<close>

text \<open>Two requests, with ids 1 and 2, are waiting for their responses.\<close>

definition two_pending :: client where
  "two_pending =
     init\<lparr>request_id := 2, callbacks := [(1, Callback 0), (2, Callback 1)], next_addr := 2,
          stdin := [[(''op'', JStr ''ping''), (''request_id'', JInt 1)],
                    [(''op'', JStr ''ping''), (''request_id'', JInt 2)]]\<rparr>"

definition ok_response :: "int \<Rightarrow> pydict" where
  "ok_response n = [(''request_id'', JInt n), (''status'', JStr ''ok'')]"

text \<open>
  A parser for the lines used in the examples: it decodes the lines of the table and
  raises \<open>JSONDecodeError\<close> on every other text.
\<close>

definition dq :: "string \<Rightarrow> string" where
  "dq s = CHR 0x22 # s @ [CHR 0x22]"

definition error_response :: "int \<Rightarrow> pydict" where
  "error_response n =
     [(''request_id'', JInt n), (''status'', JStr ''error''), (''error'', JStr ''no such topic'')]"

definition typed_error_response :: "int \<Rightarrow> pydict" where
  "typed_error_response n =
     [(''type'', JStr ''error''), (''request_id'', JInt n), (''error'', JStr ''no such topic'')]"

definition push_message :: "string \<Rightarrow> json \<Rightarrow> pydict" where
  "push_message topic payload =
     [(''type'', JStr ''message''), (''topic'', JStr topic), (''payload'', payload),
      (''metadata'', JObj [])]"

definition ok_line :: string where
  "ok_line = ''{'' @ dq ''request_id'' @ '': 1, '' @ dq ''status'' @ '': '' @ dq ''ok'' @ ''}''"

definition error_line :: string where
  "error_line = ''{'' @ dq ''request_id'' @ '': 1, '' @ dq ''status'' @ '': '' @ dq ''error''
     @ '', '' @ dq ''error'' @ '': '' @ dq ''no such topic'' @ ''}''"

definition push_line :: string where
  "push_line = ''{'' @ dq ''type'' @ '': '' @ dq ''message'' @ '', '' @ dq ''topic'' @ '': ''
     @ dq ''events'' @ '', '' @ dq ''payload'' @ '': '' @ dq ''x'' @ '', '' @ dq ''metadata''
     @ '': {}}''"

text \<open>Records whose \<open>request_id\<close> or \<open>topic\<close> is a list.\<close>

definition bad_id_response :: pydict where
  "bad_id_response = [(''request_id'', JArr [JInt 7]), (''status'', JStr ''ok'')]"

definition bad_id_error :: pydict where
  "bad_id_error = [(''type'', JStr ''error''), (''request_id'', JArr [JInt 1]),
                   (''error'', JStr ''no such topic'')]"

definition bad_topic_message :: pydict where
  "bad_topic_message = [(''type'', JStr ''message''), (''topic'', JArr [JStr ''events''])]"

definition bad_id_line :: string where
  "bad_id_line = ''{'' @ dq ''request_id'' @ '': [7], '' @ dq ''status'' @ '': '' @ dq ''ok'' @ ''}''"

definition example_loads :: "string \<Rightarrow> pyexc + json" where
  "example_loads line =
     (if line = ok_line then Inr (JObj (ok_response 1))
      else if line = error_line then Inr (JObj (error_response 1))
      else if line = push_line then Inr (JObj (push_message ''events'' (JStr ''x'')))
      else if line = bad_id_line then Inr (JObj bad_id_response)
      else Inl (JSONDecodeError line))"

text \<open>
  Handlers: one that returns, one that raises an \<open>Exception\<close>, one that leaves through
  \<open>SystemExit\<close>.
\<close>

definition quiet_handler :: "nat \<Rightarrow> handler" where
  "quiet_handler i = Handler i (\<lambda>msg. None)"

definition failing_handler :: "nat \<Rightarrow> handler" where
  "failing_handler i = Handler i (\<lambda>msg. Some (UserError ''handler failed''))"

definition exiting_handler :: "nat \<Rightarrow> handler" where
  "exiting_handler i = Handler i (\<lambda>msg. Some (BaseOnly ''SystemExit''))"

text \<open>
  The lines that the dispatch of one message to the handlers \<open>hs\<close> prints: one for
  every handler that raises.
\<close>

definition handler_log :: "handler list \<Rightarrow> pydict \<Rightarrow> log_entry list" where
  "handler_log hs msg =
     concat (map (\<lambda>h. case run h msg of None \<Rightarrow> [] | Some e \<Rightarrow> [HandlerErrorLog e]) hs)"

text \<open>A client with two handlers subscribed to the topic \<open>events\<close>.\<close>

definition subscribed :: "handler \<Rightarrow> handler \<Rightarrow> client" where
  "subscribed h1 h2 = init\<lparr>message_handlers := [(''events'', [h1, h2])]\<rparr>"

section \<open>Properties\<close>

subsection \<open>Dicts\<close>

lemma map_of_dict_set: "map_of (dict_set k v d) = (map_of d)(k \<mapsto> v)"
  by (induction d) auto

lemma map_of_dict_del: "map_of (dict_del k d) = (map_of d)(k := None)"
  unfolding dict_del_def by (induction d) auto

lemma handle_response_known:
  assumes "dict_get data ''type'' \<noteq> JStr ''message''"
    and "dict_get data ''request_id'' \<noteq> JNull"
    and "int_key (dict_get data ''request_id'') = Inr (Some n)"
    and "map_of (callbacks c) n = Some (Callback a)"
  shows "handle_response data c =
     (None, report_error data
       (c\<lparr>callbacks := dict_del n (callbacks c),
          heap := (heap c)(a := \<lparr> result = dict_update (result (heap c a)) data, event = True \<rparr>)\<rparr>))"
  using assms by (simp add: handle_response_def)

lemma report_error_fields [simp]:
  "callbacks (report_error d c) = callbacks c"
  "heap (report_error d c) = heap c"
  "message_handlers (report_error d c) = message_handlers c"
  "calls (report_error d c) = calls c"
  "stdin (report_error d c) = stdin c"
  "request_id (report_error d c) = request_id c"
  "reader_alive (report_error d c) = reader_alive c"
  "running (report_error d c) = running c"
  "next_addr (report_error d c) = next_addr c"
  "stdin_closed (report_error d c) = stdin_closed c"
  "stdin_broken (report_error d c) = stdin_broken c"
  by (simp_all add: report_error_def)

lemma waiter_ofD:
  assumes "waiter_of c d = Some a"
  obtains n where "dict_get d ''request_id'' \<noteq> JNull"
    and "int_key (dict_get d ''request_id'') = Inr (Some n)"
    and "map_of (callbacks c) n = Some (Callback a)"
proof -
  from assms obtain n where k: "int_key (dict_get d ''request_id'') = Inr (Some n)"
    and m: "map_of (callbacks c) n = Some (Callback a)"
    by (auto simp: waiter_of_def split: sum.splits option.splits callback.splits)
  from k have "dict_get d ''request_id'' \<noteq> JNull" by auto
  with k m that show thesis by blast
qed


lemma handle_response_waiter:
  assumes "dict_get d ''type'' \<noteq> JStr ''message''" and "waiter_of c d = Some a"
  shows "\<exists>n. int_key (dict_get d ''request_id'') = Inr (Some n)
          \<and> fst (handle_response d c) = None
          \<and> heap (snd (handle_response d c)) =
               (heap c)(a := \<lparr> result = dict_update (result (heap c a)) d, event = True \<rparr>)
          \<and> callbacks (snd (handle_response d c)) = dict_del n (callbacks c)"
proof -
  from assms(2) obtain n where nn: "dict_get d ''request_id'' \<noteq> JNull"
    and k: "int_key (dict_get d ''request_id'') = Inr (Some n)"
    and m: "map_of (callbacks c) n = Some (Callback a)"
    by (rule waiter_ofD)
  show ?thesis
    using k by (simp add: handle_response_known [OF assms(1) nn k m])
qed

lemma waiter_of_after:
  assumes "callbacks c1 = dict_del n (callbacks c)"
  shows "waiter_of c1 d =
     (if int_key (dict_get d ''request_id'') = Inr (Some n) then None else waiter_of c d)"
  using assms
  by (auto simp: waiter_of_def map_of_dict_del split: sum.splits option.splits callback.splits)

lemma deliver_known:
  assumes "\<forall>d\<in>set ds. dict_get d ''type'' \<noteq> JStr ''message'' \<and> waiter_of c d \<noteq> None"
    and "distinct (map (\<lambda>d. int_key (dict_get d ''request_id'')) ds)"
    and "inj_on (waiter_of c) (set ds)"
  shows "(\<forall>d\<in>set ds. \<forall>a. waiter_of c d = Some a \<longrightarrow>
            heap (deliver ds c) a = \<lparr> result = dict_update (result (heap c a)) d, event = True \<rparr>)
       \<and> (\<forall>a. Some a \<notin> waiter_of c ` set ds \<longrightarrow> heap (deliver ds c) a = heap c a)
       \<and> (\<forall>n. Inr (Some n) \<notin> (\<lambda>d. int_key (dict_get d ''request_id'')) ` set ds \<longrightarrow>
            map_of (callbacks (deliver ds c)) n = map_of (callbacks c) n)
       \<and> (\<forall>d\<in>set ds. waiter_of (deliver ds c) d = None)"
  using assms
proof (induction ds arbitrary: c)
  case Nil
  then show ?case by simp
next
  case (Cons d ds)
  let ?key = "\<lambda>d. int_key (dict_get d ''request_id'')"
  from Cons.prems(1) obtain a where ty: "dict_get d ''type'' \<noteq> JStr ''message''"
    and wa: "waiter_of c d = Some a" by auto
  obtain r c1 where hr: "handle_response d c = (r, c1)" by (cases "handle_response d c")
  from handle_response_waiter [OF ty wa] hr obtain n where
    k: "?key d = Inr (Some n)" and r: "r = None"
    and h1: "heap c1 = (heap c)(a := \<lparr> result = dict_update (result (heap c a)) d, event = True \<rparr>)"
    and cb1: "callbacks c1 = dict_del n (callbacks c)"
    by auto
  have del: "deliver (d # ds) c = deliver ds c1" using hr r by simp
  have other: "?key d' \<noteq> Inr (Some n)" if "d' \<in> set ds" for d'
    using Cons.prems(2) k that by force
  have w1: "waiter_of c1 d' = waiter_of c d'" if "d' \<in> set ds" for d'
    using waiter_of_after [OF cb1, of d'] other [OF that] by simp
  have wd: "waiter_of c1 d = None"
    using waiter_of_after [OF cb1, of d] k by simp
  have neq: "waiter_of c d' \<noteq> Some a" if "d' \<in> set ds" for d'
  proof
    assume "waiter_of c d' = Some a"
    with wa have "waiter_of c d' = waiter_of c d" by simp
    from inj_onD [OF Cons.prems(3) this] that have "d' = d" by simp
    with other [OF that] k show False by simp
  qed
  have p1: "\<forall>d\<in>set ds. dict_get d ''type'' \<noteq> JStr ''message'' \<and> waiter_of c1 d \<noteq> None"
    using Cons.prems(1) w1 by simp
  have p2: "distinct (map ?key ds)" using Cons.prems(2) by simp
  have p3: "inj_on (waiter_of c1) (set ds)"
  proof (rule inj_onI)
    fix x y assume "x \<in> set ds" "y \<in> set ds" "waiter_of c1 x = waiter_of c1 y"
    then have "waiter_of c x = waiter_of c y" by (simp add: w1)
    from inj_onD [OF Cons.prems(3) this] \<open>x \<in> set ds\<close> \<open>y \<in> set ds\<close> show "x = y" by simp
  qed
  note IH = Cons.IH [OF p1 p2 p3]
  have notin1: "Some a \<notin> waiter_of c1 ` set ds"
    using neq w1 by force
  have A: "\<forall>d'\<in>set (d # ds). \<forall>b. waiter_of c d' = Some b \<longrightarrow>
      heap (deliver (d # ds) c) b = \<lparr> result = dict_update (result (heap c b)) d', event = True \<rparr>"
  proof (intro ballI allI impI)
    fix d' b assume mem: "d' \<in> set (d # ds)" and wb: "waiter_of c d' = Some b"
    show "heap (deliver (d # ds) c) b = \<lparr> result = dict_update (result (heap c b)) d', event = True \<rparr>"
    proof (cases "d' = d")
      case True
      with wb wa have "b = a" by simp
      moreover have "heap (deliver ds c1) a = heap c1 a" using IH notin1 by blast
      ultimately show ?thesis using True del h1 by simp
    next
      case False
      with mem have m: "d' \<in> set ds" by simp
      then have "waiter_of c1 d' = Some b" using wb w1 by simp
      with IH m have "heap (deliver ds c1) b = \<lparr> result = dict_update (result (heap c1 b)) d', event = True \<rparr>"
        by blast
      moreover have "b \<noteq> a" using neq [OF m] wb by auto
      ultimately show ?thesis using del h1 by simp
    qed
  qed
  have B: "\<forall>b. Some b \<notin> waiter_of c ` set (d # ds) \<longrightarrow> heap (deliver (d # ds) c) b = heap c b"
  proof (intro allI impI)
    fix b assume nb: "Some b \<notin> waiter_of c ` set (d # ds)"
    then have "b \<noteq> a" using wa by force
    moreover have "Some b \<notin> waiter_of c1 ` set ds" using nb w1 by force
    then have "heap (deliver ds c1) b = heap c1 b" using IH by blast
    ultimately show "heap (deliver (d # ds) c) b = heap c b" using del h1 by simp
  qed
  have C: "\<forall>m. Inr (Some m) \<notin> ?key ` set (d # ds) \<longrightarrow>
      map_of (callbacks (deliver (d # ds) c)) m = map_of (callbacks c) m"
  proof (intro allI impI)
    fix m assume nm: "Inr (Some m) \<notin> ?key ` set (d # ds)"
    then have "m \<noteq> n" using k by force
    moreover have "Inr (Some m) \<notin> ?key ` set ds" using nm by auto
    then have "map_of (callbacks (deliver ds c1)) m = map_of (callbacks c1) m" using IH by blast
    ultimately show "map_of (callbacks (deliver (d # ds) c)) m = map_of (callbacks c) m"
      using del cb1 by (simp add: map_of_dict_del)
  qed
  have D: "\<forall>d'\<in>set (d # ds). waiter_of (deliver (d # ds) c) d' = None"
  proof
    fix d' assume mem: "d' \<in> set (d # ds)"
    show "waiter_of (deliver (d # ds) c) d' = None"
    proof (cases "d' \<in> set ds")
      case True
      then show ?thesis using IH del by simp
    next
      case False
      with mem have e: "d' = d" by simp
      have "Inr (Some n) \<notin> ?key ` set ds" using other by force
      then have "map_of (callbacks (deliver ds c1)) n = map_of (callbacks c1) n" using IH by blast
      then have "map_of (callbacks (deliver ds c1)) n = None" using cb1 by (simp add: map_of_dict_del)
      then show ?thesis using e del k by (simp add: waiter_of_def)
    qed
  qed
  from A B C D show ?case by blast
qed

subsection \<open>Responses reach their waiters\<close>

text \<open>
  C1. Let \<open>ds\<close> be response records (records that are not push messages) with
  pairwise different request ids, each id registered in \<open>self.callbacks\<close>, and the
  registered waiters pairwise different. In whatever order \<open>arrival\<close> the reader
  handles them, the waiter registered under a record's \<open>request_id\<close> is completed
  with exactly that record (its result dict is updated with the record and its event
  is set) and is removed from the registry; every other waiter and every other registry
  entry is left as it was.
\<close>

theorem responses_reach_their_waiters:
  assumes "\<forall>d\<in>set ds. dict_get d ''type'' \<noteq> JStr ''message'' \<and> waiter_of c d \<noteq> None"
    and "distinct (map (\<lambda>d. int_key (dict_get d ''request_id'')) ds)"
    and "inj_on (waiter_of c) (set ds)"
    and "mset arrival = mset ds"
  shows "(\<forall>d\<in>set ds. \<forall>a. waiter_of c d = Some a \<longrightarrow>
            heap (deliver arrival c) a =
              \<lparr> result = dict_update (result (heap c a)) d, event = True \<rparr>)
       \<and> (\<forall>a. Some a \<notin> waiter_of c ` set ds \<longrightarrow> heap (deliver arrival c) a = heap c a)
       \<and> (\<forall>n. Inr (Some n) \<notin> (\<lambda>d. int_key (dict_get d ''request_id'')) ` set ds \<longrightarrow>
            map_of (callbacks (deliver arrival c)) n = map_of (callbacks c) n)
       \<and> (\<forall>d\<in>set ds. waiter_of (deliver arrival c) d = None)"
proof -
  have s: "set arrival = set ds" using assms(4) by (rule mset_eq_setD)
  have "mset (map (\<lambda>d. int_key (dict_get d ''request_id'')) arrival)
      = mset (map (\<lambda>d. int_key (dict_get d ''request_id'')) ds)"
    using assms(4) by simp
  then have d: "distinct (map (\<lambda>d. int_key (dict_get d ''request_id'')) arrival)"
    using assms(2) by (metis mset_eq_imp_distinct_iff)
  have "(\<forall>d\<in>set arrival. \<forall>a. waiter_of c d = Some a \<longrightarrow>
            heap (deliver arrival c) a =
              \<lparr> result = dict_update (result (heap c a)) d, event = True \<rparr>)
       \<and> (\<forall>a. Some a \<notin> waiter_of c ` set arrival \<longrightarrow> heap (deliver arrival c) a = heap c a)
       \<and> (\<forall>n. Inr (Some n) \<notin> (\<lambda>d. int_key (dict_get d ''request_id'')) ` set arrival \<longrightarrow>
            map_of (callbacks (deliver arrival c)) n = map_of (callbacks c) n)
       \<and> (\<forall>d\<in>set arrival. waiter_of (deliver arrival c) d = None)"
    using assms(1,3) unfolding s [symmetric] by (intro deliver_known d) auto
  then show ?thesis unfolding s .
qed

theorem responses_reach_their_waiters_witness:
  "heap (deliver [ok_response 2, ok_response 1] two_pending) 0
     = \<lparr> result = ok_response 1, event = True \<rparr>
   \<and> heap (deliver [ok_response 2, ok_response 1] two_pending) 1
     = \<lparr> result = ok_response 2, event = True \<rparr>
   \<and> callbacks (deliver [ok_response 2, ok_response 1] two_pending) = []"
proof -
  have w: "waiter_of two_pending (ok_response 1) = Some 0"
    "waiter_of two_pending (ok_response 2) = Some 1"
    by (simp_all add: waiter_of_def two_pending_def ok_response_def dict_get_def init_def)
  have neq: "ok_response 1 \<noteq> ok_response 2" by (simp add: ok_response_def)
  have h1: "\<forall>d\<in>set [ok_response 1, ok_response 2].
      dict_get d ''type'' \<noteq> JStr ''message'' \<and> waiter_of two_pending d \<noteq> None"
    using w by (simp add: ok_response_def dict_get_def)
  have h2: "distinct (map (\<lambda>d. int_key (dict_get d ''request_id''))
      [ok_response 1, ok_response 2])"
    by (simp add: ok_response_def dict_get_def)
  have h3: "inj_on (waiter_of two_pending) (set [ok_response 1, ok_response 2])"
    using w neq by (simp add: inj_on_def)
  have h4: "mset [ok_response 2, ok_response 1] = mset [ok_response 1, ok_response 2]"
    by simp
  have r: "dict_update (result (heap two_pending 0)) (ok_response 1) = ok_response 1"
    "dict_update (result (heap two_pending 1)) (ok_response 2) = ok_response 2"
    by (simp_all add: two_pending_def init_def ok_response_def dict_update_def)
  have cb: "callbacks (deliver [ok_response 2, ok_response 1] two_pending) = []"
    by (simp add: handle_response_def two_pending_def init_def ok_response_def dict_get_def
        dict_del_def Let_def report_error_def)
  from responses_reach_their_waiters [OF h1 h2 h3 h4] w r cb show ?thesis by simp
qed

lemma strip_blank: "strip line = [] \<longleftrightarrow> (\<forall>ch\<in>set line. isspace ch)"
proof
  assume "strip line = []"
  then have a: "\<forall>x\<in>set (dropWhile isspace line). isspace x"
    by (simp add: strip_def dropWhile_eq_Nil_conv)
  have "dropWhile isspace line = []"
  proof (rule ccontr)
    assume ne: "dropWhile isspace line \<noteq> []"
    then have "\<not> isspace (hd (dropWhile isspace line))" by (rule hd_dropWhile)
    moreover have "hd (dropWhile isspace line) \<in> set (dropWhile isspace line)"
      using ne by simp
    ultimately show False using a by blast
  qed
  then show "\<forall>ch\<in>set line. isspace ch" by (simp add: dropWhile_eq_Nil_conv)
next
  assume "\<forall>ch\<in>set line. isspace ch"
  then have d: "dropWhile isspace line = []" by (simp add: dropWhile_eq_Nil_conv)
  show "strip line = []" by (simp only: strip_def d rev.simps dropWhile.simps)
qed

subsection \<open>Blank lines\<close>

text \<open>
  C10. A line that is empty or consists of whitespace only (so that it is empty after
  \<open>strip()\<close>) is skipped by the read loop: the iteration returns normally and the
  whole client state, with the registries, the waiters and the printed log, is as
  before; the loop goes on with the next line. Nothing is decoded or classified.
\<close>

theorem blank_line_is_skipped:
  assumes "\<forall>ch\<in>set line. isspace ch"
  shows "read_line loads line c = (None, c)
       \<and> (reader_alive c \<longrightarrow> feed loads (line # rest) c = feed loads rest c)"
proof -
  have "strip line = []" using assms by (simp add: strip_blank)
  then show ?thesis by (simp add: read_line_def)
qed



theorem blank_line_is_skipped_witness:
  "isspace (CHR 0x20) \<and> isspace (CHR 0x09) \<and> isspace (CHR 0x0A)
   \<and> read_line example_loads [CHR 0x20, CHR 0x09, CHR 0x0A] two_pending = (None, two_pending)
   \<and> feed example_loads [[CHR 0x20, CHR 0x09, CHR 0x0A], []] two_pending = two_pending"
proof -
  have h: "\<forall>ch\<in>set ([CHR 0x20, CHR 0x09, CHR 0x0A]). isspace ch"
    by (simp add: isspace_def)
  have e: "\<forall>ch\<in>set ([] :: string). isspace ch" by simp
  have a: "reader_alive two_pending" by (simp add: two_pending_def init_def)
  from blank_line_is_skipped [OF h, of example_loads two_pending "[[]]"]
    blank_line_is_skipped [OF e, of example_loads two_pending "[]"] a h
  show ?thesis by (simp add: isspace_def)
qed

subsection \<open>What the dispatcher leaves alone\<close>

lemma call_callback_fields [simp]:
  "callbacks (call_callback cb d c) = callbacks c"
  "message_handlers (call_callback cb d c) = message_handlers c"
  "calls (call_callback cb d c) = calls c"
  "stdin (call_callback cb d c) = stdin c"
  "stderr (call_callback cb d c) = stderr c"
  "request_id (call_callback cb d c) = request_id c"
  "reader_alive (call_callback cb d c) = reader_alive c"
  "running (call_callback cb d c) = running c"
  "next_addr (call_callback cb d c) = next_addr c"
  "stdin_closed (call_callback cb d c) = stdin_closed c"
  "stdin_broken (call_callback cb d c) = stdin_broken c"
  by (cases cb; simp)+

lemma run_handlers_frame:
  "callbacks (snd (run_handlers hs d c)) = callbacks c
   \<and> heap (snd (run_handlers hs d c)) = heap c
   \<and> message_handlers (snd (run_handlers hs d c)) = message_handlers c
   \<and> stdin (snd (run_handlers hs d c)) = stdin c
   \<and> request_id (snd (run_handlers hs d c)) = request_id c
   \<and> reader_alive (snd (run_handlers hs d c)) = reader_alive c
   \<and> running (snd (run_handlers hs d c)) = running c
   \<and> next_addr (snd (run_handlers hs d c)) = next_addr c
   \<and> stdin_closed (snd (run_handlers hs d c)) = stdin_closed c
   \<and> stdin_broken (snd (run_handlers hs d c)) = stdin_broken c"
  by (induction hs arbitrary: c) (simp_all add: Let_def split: option.splits)

lemma handle_response_frame:
  "message_handlers (snd (handle_response d c)) = message_handlers c
   \<and> stdin (snd (handle_response d c)) = stdin c
   \<and> request_id (snd (handle_response d c)) = request_id c
   \<and> reader_alive (snd (handle_response d c)) = reader_alive c
   \<and> running (snd (handle_response d c)) = running c
   \<and> next_addr (snd (handle_response d c)) = next_addr c
   \<and> stdin_closed (snd (handle_response d c)) = stdin_closed c
   \<and> stdin_broken (snd (handle_response d c)) = stdin_broken c"
  by (simp add: handle_response_def Let_def run_handlers_frame
      split: sum.splits option.splits)

lemma read_line_frame:
  "message_handlers (snd (read_line loads line c)) = message_handlers c
   \<and> stdin (snd (read_line loads line c)) = stdin c
   \<and> request_id (snd (read_line loads line c)) = request_id c
   \<and> reader_alive (snd (read_line loads line c)) = reader_alive c
   \<and> running (snd (read_line loads line c)) = running c
   \<and> next_addr (snd (read_line loads line c)) = next_addr c
   \<and> stdin_closed (snd (read_line loads line c)) = stdin_closed c
   \<and> stdin_broken (snd (read_line loads line c)) = stdin_broken c"
proof -
  have "message_handlers (snd (decode_and_handle loads l c)) = message_handlers c
   \<and> stdin (snd (decode_and_handle loads l c)) = stdin c
   \<and> request_id (snd (decode_and_handle loads l c)) = request_id c
   \<and> reader_alive (snd (decode_and_handle loads l c)) = reader_alive c
   \<and> running (snd (decode_and_handle loads l c)) = running c
   \<and> next_addr (snd (decode_and_handle loads l c)) = next_addr c
   \<and> stdin_closed (snd (decode_and_handle loads l c)) = stdin_closed c
   \<and> stdin_broken (snd (decode_and_handle loads l c)) = stdin_broken c" for l
    by (simp add: decode_and_handle_def handle_response_frame split: sum.splits json.splits)
  note dh = this [of "strip line"]
  obtain r c1 where e: "decode_and_handle loads (strip line) c = (r, c1)"
    by (cases "decode_and_handle loads (strip line) c")
  from dh e have f:
    "message_handlers c1 = message_handlers c" "stdin c1 = stdin c"
    "request_id c1 = request_id c" "reader_alive c1 = reader_alive c"
    "running c1 = running c" "next_addr c1 = next_addr c"
    "stdin_closed c1 = stdin_closed c" "stdin_broken c1 = stdin_broken c" by simp_all
  show ?thesis
    using e f by (cases r) (simp_all add: read_line_def Let_def)
qed

lemma feed_frame:
  "message_handlers (feed loads ls c) = message_handlers c
   \<and> stdin (feed loads ls c) = stdin c
   \<and> request_id (feed loads ls c) = request_id c
   \<and> next_addr (feed loads ls c) = next_addr c
   \<and> stdin_closed (feed loads ls c) = stdin_closed c
   \<and> stdin_broken (feed loads ls c) = stdin_broken c"
proof (induction ls arbitrary: c)
  case Nil
  then show ?case by simp
next
  case (Cons l ls)
  obtain r c1 where rl: "read_line loads l c = (r, c1)" by (cases "read_line loads l c")
  with read_line_frame [of loads l c] have f:
    "message_handlers c1 = message_handlers c" "stdin c1 = stdin c"
    "request_id c1 = request_id c" "next_addr c1 = next_addr c"
    "stdin_closed c1 = stdin_closed c" "stdin_broken c1 = stdin_broken c" by simp_all
  show ?case
    using rl f Cons.IH [of c1]
    by (cases r) (simp_all add: reader_exit_def Let_def)
qed

lemma send_frame:
  "message_handlers (snd (send cmd cb c)) = message_handlers c
   \<and> heap (snd (send cmd cb c)) = heap c
   \<and> next_addr (snd (send cmd cb c)) = next_addr c
   \<and> calls (snd (send cmd cb c)) = calls c
   \<and> request_id (snd (send cmd cb c)) = request_id c + 1"
  by (simp add: send_def Let_def split: option.splits)

lemma send_and_wait_handlers:
  "message_handlers (snd (send_and_wait loads cmd inbound c)) = message_handlers c"
proof -
  obtain a c1 where nw: "new_waiter c = (a, c1)" by (cases "new_waiter c")
  then have m1: "message_handlers c1 = message_handlers c" by (auto simp: new_waiter_def)
  obtain r c2 where sd: "send cmd (Some (Callback a)) c1 = (r, c2)"
    by (cases "send cmd (Some (Callback a)) c1")
  with send_frame [of cmd "Some (Callback a)" c1] have m2: "message_handlers c2 = message_handlers c1"
    by simp
  show ?thesis
    using nw sd m1 m2 by (cases r) (simp_all add: send_and_wait_def feed_frame Let_def)
qed

subsection \<open>Dispatch of push messages\<close>

lemma run_handlers_all:
  assumes "\<forall>h\<in>set hs. \<forall>e. run h msg = Some e \<longrightarrow> is_Exception e"
  shows "run_handlers hs msg c =
     (None, c\<lparr>calls := calls c @ map (\<lambda>h. (hid h, msg)) hs,
               stderr := stderr c @ handler_log hs msg\<rparr>)"
  using assms
proof (induction hs arbitrary: c)
  case Nil
  then show ?case by (simp add: handler_log_def)
next
  case (Cons h hs)
  then have IH: "run_handlers hs msg s =
     (None, s\<lparr>calls := calls s @ map (\<lambda>h. (hid h, msg)) hs,
               stderr := stderr s @ handler_log hs msg\<rparr>)" for s
    by simp
  show ?case
  proof (cases "run h msg")
    case None
    then show ?thesis by (simp add: IH handler_log_def)
  next
    case (Some e)
    with Cons.prems have "is_Exception e" by simp
    with Some show ?thesis by (simp add: IH handler_log_def)
  qed
qed

lemma push_dispatch:
  assumes "map_of (message_handlers c) topic = Some hs"
    and "dict_get msg ''type'' = JStr ''message''"
    and "dict_get msg ''topic'' = JStr topic"
    and "\<forall>h\<in>set hs. \<forall>e. run h msg = Some e \<longrightarrow> is_Exception e"
  shows "handle_response msg c =
     (None, c\<lparr>calls := calls c @ map (\<lambda>h. (hid h, msg)) hs,
               stderr := stderr c @ handler_log hs msg\<rparr>)"
  using assms(1-3) by (simp add: handle_response_def run_handlers_all [OF assms(4)])

text \<open>
  C7, as the code has it. Let \<open>hs\<close> be the handlers registered for a topic, in
  registration order, and \<open>msgs\<close> push messages for that topic, such that a handler
  that raises on one of them raises an exception of class \<open>Exception\<close> (the class that
  line 73 catches). Then for every message, one after the other, every handler of
  \<open>hs\<close> is called with it, in registration order; every raised exception is printed;
  and the registered handlers are the same afterwards. A handler that raises therefore
  stops neither the handlers after it on the same message nor any handler on a later
  message.
\<close>

theorem handlers_run_in_order:
  assumes "map_of (message_handlers c) topic = Some hs"
    and "\<forall>msg\<in>set msgs. dict_get msg ''type'' = JStr ''message''
           \<and> dict_get msg ''topic'' = JStr topic"
    and "\<forall>msg\<in>set msgs. \<forall>h\<in>set hs. \<forall>e. run h msg = Some e \<longrightarrow> is_Exception e"
  shows "calls (deliver msgs c) = calls c @ concat (map (\<lambda>msg. map (\<lambda>h. (hid h, msg)) hs) msgs)
       \<and> stderr (deliver msgs c) = stderr c @ concat (map (handler_log hs) msgs)
       \<and> message_handlers (deliver msgs c) = message_handlers c"
  using assms
proof (induction msgs arbitrary: c)
  case Nil
  then show ?case by simp
next
  case (Cons msg msgs)
  let ?c1 = "c\<lparr>calls := calls c @ map (\<lambda>h. (hid h, msg)) hs,
               stderr := stderr c @ handler_log hs msg\<rparr>"
  have hr: "handle_response msg c = (None, ?c1)"
    using Cons.prems by (intro push_dispatch) auto
  have "map_of (message_handlers ?c1) topic = Some hs" using Cons.prems(1) by simp
  from Cons.IH [OF this] Cons.prems(2,3) hr show ?case by simp
qed

theorem handlers_run_in_order_witness:
  "calls (deliver [push_message ''events'' (JStr ''x''), push_message ''events'' (JStr ''y'')]
            (subscribed (failing_handler 1) (quiet_handler 2)))
     = [(1, push_message ''events'' (JStr ''x'')), (2, push_message ''events'' (JStr ''x'')),
        (1, push_message ''events'' (JStr ''y'')), (2, push_message ''events'' (JStr ''y''))]
   \<and> stderr (deliver [push_message ''events'' (JStr ''x''), push_message ''events'' (JStr ''y'')]
            (subscribed (failing_handler 1) (quiet_handler 2)))
     = [HandlerErrorLog (UserError ''handler failed''), HandlerErrorLog (UserError ''handler failed'')]"
proof -
  let ?c = "subscribed (failing_handler 1) (quiet_handler 2)"
  let ?hs = "[failing_handler 1, quiet_handler 2]"
  let ?msgs = "[push_message ''events'' (JStr ''x''), push_message ''events'' (JStr ''y'')]"
  have h1: "map_of (message_handlers ?c) ''events'' = Some ?hs"
    by (simp add: subscribed_def init_def)
  have h2: "\<forall>msg\<in>set ?msgs. dict_get msg ''type'' = JStr ''message''
           \<and> dict_get msg ''topic'' = JStr ''events''"
    by (simp add: push_message_def dict_get_def)
  have h3: "\<forall>msg\<in>set ?msgs. \<forall>h\<in>set ?hs. \<forall>e. run h msg = Some e \<longrightarrow> is_Exception e"
    by (simp add: failing_handler_def quiet_handler_def)
  from handlers_run_in_order [OF h1 h2 h3]
  show ?thesis
    by (simp add: handler_log_def failing_handler_def quiet_handler_def subscribed_def init_def)
qed

text \<open>
  C7 as stated fails for a handler that raises an exception outside the class
  \<open>Exception\<close>: with a first handler that leaves through \<open>SystemExit\<close>, the second
  handler is not called on the message, the reader thread ends, and the later message is
  not dispatched at all.
\<close>

theorem exiting_handler_stops_dispatch:
  "calls (feed example_loads [push_line, push_line]
            (subscribed (exiting_handler 1) (quiet_handler 2)))
     = [(1, push_message ''events'' (JStr ''x''))]
   \<and> \<not> reader_alive (feed example_loads [push_line, push_line]
            (subscribed (exiting_handler 1) (quiet_handler 2)))"
proof -
  have s: "strip push_line = push_line"
    by (simp add: strip_def push_line_def dq_def isspace_def)
  have l: "example_loads push_line = Inr (JObj (push_message ''events'' (JStr ''x'')))"
    by (simp add: example_loads_def push_line_def ok_line_def error_line_def dq_def)
  have ne: "push_line \<noteq> []" by (simp add: push_line_def)
  have a: "reader_alive (subscribed (exiting_handler 1) (quiet_handler 2))"
    by (simp add: subscribed_def init_def)
  show ?thesis
    using a
    by (simp add: read_line_def s l ne decode_and_handle_def reader_exit_def
        handle_response_def subscribed_def init_def exiting_handler_def
        quiet_handler_def push_message_def dict_get_def)
qed

subsection \<open>Subscribing and unsubscribing\<close>

lemma remove_handlers_gone: "map_of (message_handlers (remove_handlers topic c)) topic = None"
  by (auto simp: remove_handlers_def map_of_dict_del)

lemma remove_handlers_other:
  "t \<noteq> topic \<Longrightarrow>
     map_of (message_handlers (remove_handlers topic c)) t = map_of (message_handlers c) t"
  by (auto simp: remove_handlers_def map_of_dict_del)

lemma push_without_handlers:
  assumes "dict_get msg ''type'' = JStr ''message''" and "dict_get msg ''topic'' = JStr topic"
    and "map_of (message_handlers c) topic = None"
  shows "handle_response msg c = (None, c)"
  using assms by (simp add: handle_response_def)

text \<open>
  C8. \<open>unsubscribe(topic)\<close> deletes the topic's entry, with its whole handler list, on
  entry: in the state in which the command is then sent the topic has no handlers and
  nothing has been written yet, and the entries of other topics are untouched. This
  does not depend on what the broker answers: whatever lines arrive during the wait,
  and whether or not the write succeeds, the topic has no handlers when the call ends.
  A push message for the topic that arrives after the removal, or after the call,
  calls no handler and changes nothing.
\<close>

theorem unsubscribe_removes_all_handlers:
  assumes "dict_get msg ''type'' = JStr ''message''" and "dict_get msg ''topic'' = JStr topic"
  shows "unsubscribe loads topic inbound c
           = send_and_wait loads [(''op'', JStr ''unsubscribe''), (''topic'', JStr topic)]
               inbound (remove_handlers topic c)
       \<and> map_of (message_handlers (remove_handlers topic c)) topic = None
       \<and> stdin (remove_handlers topic c) = stdin c
       \<and> (\<forall>t. t \<noteq> topic \<longrightarrow>
             map_of (message_handlers (remove_handlers topic c)) t
               = map_of (message_handlers c) t)
       \<and> handle_response msg (remove_handlers topic c) = (None, remove_handlers topic c)
       \<and> map_of (message_handlers (snd (unsubscribe loads topic inbound c))) topic = None
       \<and> handle_response msg (snd (unsubscribe loads topic inbound c))
           = (None, snd (unsubscribe loads topic inbound c))"
proof -
  have gone: "map_of (message_handlers (snd (unsubscribe loads topic inbound c))) topic = None"
    by (simp add: unsubscribe_def send_and_wait_handlers remove_handlers_gone)
  have "stdin (remove_handlers topic c) = stdin c" by (simp add: remove_handlers_def)
  with gone show ?thesis
    using push_without_handlers [OF assms] remove_handlers_gone remove_handlers_other
    by (simp add: unsubscribe_def)
qed

theorem unsubscribe_removes_all_handlers_witness:
  "map_of (message_handlers
      (snd (unsubscribe example_loads ''events'' [push_line]
              (subscribed (quiet_handler 1) (quiet_handler 2))))) ''events'' = None
   \<and> calls (snd (handle_response (push_message ''events'' (JStr ''x''))
        (snd (unsubscribe example_loads ''events'' [push_line]
                (subscribed (quiet_handler 1) (quiet_handler 2)))))) = []"
proof -
  let ?c = "snd (unsubscribe example_loads ''events'' [push_line]
              (subscribed (quiet_handler 1) (quiet_handler 2)))"
  have t: "dict_get (push_message ''events'' (JStr ''x'')) ''type'' = JStr ''message''"
    "dict_get (push_message ''events'' (JStr ''x'')) ''topic'' = JStr ''events''"
    by (simp_all add: push_message_def dict_get_def)
  have s: "strip push_line = push_line"
    by (simp add: strip_def push_line_def dq_def isspace_def)
  have l: "example_loads push_line = Inr (JObj (push_message ''events'' (JStr ''x'')))"
    by (simp add: example_loads_def push_line_def ok_line_def error_line_def dq_def)
  have ne: "push_line \<noteq> []" by (simp add: push_line_def)
  have cc: "calls ?c = []"
    by (simp add: unsubscribe_def send_and_wait_def new_waiter_def send_def remove_handlers_def
        subscribed_def init_def dict_del_def Let_def read_line_def s l ne decode_and_handle_def
        handle_response_def push_message_def dict_get_def)
  note th = unsubscribe_removes_all_handlers [OF t, of example_loads "[push_line]"
      "subscribed (quiet_handler 1) (quiet_handler 2)"]
  from th have g: "map_of (message_handlers ?c) ''events'' = None" by blast
  from th have hr: "handle_response (push_message ''events'' (JStr ''x'')) ?c = (None, ?c)"
    by blast
  show ?thesis unfolding hr using g cc by simp
qed

lemma register_handler_registered:
  "map_of (message_handlers (register_handler topic h c)) topic
     = Some ((case map_of (message_handlers c) topic of None \<Rightarrow> [] | Some hs \<Rightarrow> hs) @ [h])"
  by (simp add: register_handler_def map_of_dict_set split: option.splits)

text \<open>
  C9. \<open>subscribe(topic, handler)\<close> appends the handler to the end of the topic's list
  (a new list when the topic had none) before anything is written: in the state after
  line 132 the handler is registered and the pipe holds what it held on entry. In every
  state that \<open>subscribe\<close> goes through up to the end of \<open>_send\<close>, if a command has
  been written then the handler is registered; the rest of the call starts from the
  last of these states, and the handler is still registered when the call ends.
\<close>

theorem subscribe_registers_before_sending:
  "map_of (message_handlers (register_handler topic h c)) topic
     = Some ((case map_of (message_handlers c) topic of None \<Rightarrow> [] | Some hs \<Rightarrow> hs) @ [h])
   \<and> stdin (register_handler topic h c) = stdin c
   \<and> (\<forall>s\<in>set (subscribe_steps topic h c). stdin s \<noteq> stdin c \<longrightarrow>
         map_of (message_handlers s) topic
           = Some ((case map_of (message_handlers c) topic of None \<Rightarrow> [] | Some hs \<Rightarrow> hs) @ [h]))
   \<and> (snd (subscribe loads topic h inbound c) = last (subscribe_steps topic h c)
        \<or> snd (subscribe loads topic h inbound c)
            = feed loads inbound (last (subscribe_steps topic h c)))
   \<and> map_of (message_handlers (snd (subscribe loads topic h inbound c))) topic
       = Some ((case map_of (message_handlers c) topic of None \<Rightarrow> [] | Some hs \<Rightarrow> hs) @ [h])"
proof -
  let ?c0 = "register_handler topic h c"
  let ?cmd = "[(''op'', JStr ''subscribe''), (''topic'', JStr topic)]"
  let ?old = "case map_of (message_handlers c) topic of None \<Rightarrow> [] | Some hs \<Rightarrow> hs"
  obtain a c1 where nw: "new_waiter ?c0 = (a, c1)" by (cases "new_waiter ?c0")
  obtain r c2 where sd: "send ?cmd (Some (Callback a)) c1 = (r, c2)"
    by (cases "send ?cmd (Some (Callback a)) c1")
  have reg: "map_of (message_handlers ?c0) topic = Some (?old @ [h])"
    by (rule register_handler_registered)
  have st0: "stdin ?c0 = stdin c" by (simp add: register_handler_def)
  have m1: "message_handlers c1 = message_handlers ?c0" and st1: "stdin c1 = stdin ?c0"
    using nw by (auto simp: new_waiter_def)
  have m2: "message_handlers c2 = message_handlers c1"
    using send_frame [of ?cmd "Some (Callback a)" c1] sd by simp
  have steps: "subscribe_steps topic h c = [c, ?c0, c1, c2]"
    using nw sd by (simp add: subscribe_steps_def Let_def)
  have A: "\<forall>s\<in>set (subscribe_steps topic h c). stdin s \<noteq> stdin c \<longrightarrow>
         map_of (message_handlers s) topic = Some (?old @ [h])"
    using steps reg st0 st1 m1 m2 by auto
  have sw: "snd (send_and_wait loads ?cmd inbound ?c0) = c2
      \<or> snd (send_and_wait loads ?cmd inbound ?c0) = feed loads inbound c2"
    using nw sd by (cases r) (simp_all add: send_and_wait_def Let_def)
  have sub: "snd (subscribe loads topic h inbound c) = snd (send_and_wait loads ?cmd inbound ?c0)"
    by (simp add: subscribe_def split: prod.splits sum.splits)
  have B: "snd (subscribe loads topic h inbound c) = last (subscribe_steps topic h c)
        \<or> snd (subscribe loads topic h inbound c)
            = feed loads inbound (last (subscribe_steps topic h c))"
    using sw sub steps by simp
  have C: "map_of (message_handlers (snd (subscribe loads topic h inbound c))) topic
       = Some (?old @ [h])"
    using sub reg by (simp add: send_and_wait_handlers)
  from reg st0 A B C show ?thesis by blast
qed

theorem subscribe_registers_before_sending_witness:
  "stdin (last (subscribe_steps ''events'' (quiet_handler 1) init)) \<noteq> stdin init
   \<and> map_of (message_handlers (last (subscribe_steps ''events'' (quiet_handler 1) init))) ''events''
       = Some [quiet_handler 1]"
proof -
  have m: "last (subscribe_steps ''events'' (quiet_handler 1) init)
      \<in> set (subscribe_steps ''events'' (quiet_handler 1) init)"
    by (simp add: subscribe_steps_def Let_def)
  have w: "stdin (last (subscribe_steps ''events'' (quiet_handler 1) init)) \<noteq> stdin init"
    by (simp add: subscribe_steps_def Let_def send_def new_waiter_def register_handler_def
        init_def)
  have em: "map_of (message_handlers init) ''events'' = None" by (simp add: init_def)
  from subscribe_registers_before_sending [of "''events''" "quiet_handler 1" init] m w em
  show ?thesis by auto
qed

subsection \<open>Classification of records\<close>

lemma run_handlers_log:
  "\<exists>es. stderr (snd (run_handlers hs d c)) = stderr c @ map HandlerErrorLog es"
proof (induction hs arbitrary: c)
  case Nil
  have "stderr (snd (run_handlers [] d c)) = stderr c @ map HandlerErrorLog []" by simp
  then show ?case by blast
next
  case (Cons h hs)
  let ?c1 = "c\<lparr>calls := calls c @ [(hid h, d)]\<rparr>"
  show ?case
  proof (cases "run h d")
    case None
    from Cons.IH [of ?c1] obtain es where
      "stderr (snd (run_handlers hs d ?c1)) = stderr ?c1 @ map HandlerErrorLog es" by blast
    with None have "stderr (snd (run_handlers (h # hs) d c)) = stderr c @ map HandlerErrorLog es"
      by simp
    then show ?thesis by blast
  next
    case (Some e)
    show ?thesis
    proof (cases "is_Exception e")
      case True
      let ?c2 = "?c1\<lparr>stderr := stderr ?c1 @ [HandlerErrorLog e]\<rparr>"
      from Cons.IH [of ?c2] obtain es where
        "stderr (snd (run_handlers hs d ?c2)) = stderr ?c2 @ map HandlerErrorLog es" by blast
      with Some True have
        "stderr (snd (run_handlers (h # hs) d c)) = stderr c @ map HandlerErrorLog (e # es)"
        by simp
      then show ?thesis by blast
    next
      case False
      with Some have "stderr (snd (run_handlers (h # hs) d c)) = stderr c @ map HandlerErrorLog []"
        by simp
      then show ?thesis by blast
    qed
  qed
qed

text \<open>
  C6 as stated fails on a record of type \<open>error\<close> that carries the id of a pending
  request: line 84 is an \<open>if\<close> of its own, so the record resolves the request and is
  printed as well, where the specification's classification resolves it only.
\<close>

theorem error_response_is_resolved_and_logged:
  "callbacks (snd (handle_response (typed_error_response 1) two_pending)) = [(2, Callback 1)]
   \<and> event (heap (snd (handle_response (typed_error_response 1) two_pending)) 0)
   \<and> stderr (snd (handle_response (typed_error_response 1) two_pending))
       = [ErrorLog (JStr ''no such topic'')]
   \<and> stderr (snd (spec_dispatch (typed_error_response 1) two_pending)) = []
   \<and> handle_response (typed_error_response 1) two_pending
       \<noteq> spec_dispatch (typed_error_response 1) two_pending"
proof -
  have a: "stderr (snd (handle_response (typed_error_response 1) two_pending))
       = [ErrorLog (JStr ''no such topic'')]"
    and b: "callbacks (snd (handle_response (typed_error_response 1) two_pending)) = [(2, Callback 1)]"
    and c: "event (heap (snd (handle_response (typed_error_response 1) two_pending)) 0)"
    by (simp_all add: handle_response_def typed_error_response_def two_pending_def init_def
        dict_get_def dict_del_def report_error_def Let_def)
  have d: "stderr (snd (spec_dispatch (typed_error_response 1) two_pending)) = []"
    by (simp add: spec_dispatch_def typed_error_response_def two_pending_def init_def
        dict_get_def dict_del_def report_error_def Let_def)
  from a d have "handle_response (typed_error_response 1) two_pending
       \<noteq> spec_dispatch (typed_error_response 1) two_pending" by auto
  with a b c d show ?thesis by simp
qed

text \<open>
  C6, as the code has it, for every decoded record that is a dict. A record of type
  \<open>message\<close> is dispatched to the handlers of its topic (to none when the topic has no
  subscribers) and is not treated as a response; when its topic is a list or a dict, the
  lookup at line 69 raises \<open>TypeError\<close> and nothing is dispatched. In both cases the
  registry and the waiters are as before, and only handler errors are printed. A record
  of any other type calls no handler. When its \<open>request_id\<close> is a list or a dict, the
  lookup at line 79 raises \<open>TypeError\<close>, and the record is neither resolved nor
  printed. Otherwise the record does not raise; it resolves the pending request registered
  under its \<open>request_id\<close> when there is one, and leaves registry and waiters alone when
  there is none; and, whether or not it resolved a request, it is printed exactly when
  its type is \<open>error\<close>. A record that is not a message thus takes both, one or none of
  the last two branches.
\<close>

theorem dispatcher_classification:
  "(dict_get d ''type'' = JStr ''message'' \<longrightarrow>
      (\<forall>e. str_key (dict_get d ''topic'') = Inl e \<longrightarrow> handle_response d c = (Some e, c))
    \<and> ((\<forall>e. str_key (dict_get d ''topic'') \<noteq> Inl e) \<longrightarrow>
          handle_response d c
            = run_handlers
                (case str_key (dict_get d ''topic'') of
                   Inr (Some t) \<Rightarrow> (case map_of (message_handlers c) t of
                                      Some hs \<Rightarrow> hs | None \<Rightarrow> [])
                 | _ \<Rightarrow> []) d c)
    \<and> callbacks (snd (handle_response d c)) = callbacks c
    \<and> heap (snd (handle_response d c)) = heap c
    \<and> (\<exists>es. stderr (snd (handle_response d c)) = stderr c @ map HandlerErrorLog es))
   \<and> (dict_get d ''type'' \<noteq> JStr ''message'' \<longrightarrow>
      calls (snd (handle_response d c)) = calls c
    \<and> (\<forall>e. int_key (dict_get d ''request_id'') = Inl e \<longrightarrow> handle_response d c = (Some e, c))
    \<and> ((\<forall>e. int_key (dict_get d ''request_id'') \<noteq> Inl e) \<longrightarrow>
          fst (handle_response d c) = None
        \<and> (\<forall>a. waiter_of c d = Some a \<longrightarrow>
              heap (snd (handle_response d c))
                = (heap c)(a := \<lparr> result = dict_update (result (heap c a)) d, event = True \<rparr>)
              \<and> waiter_of (snd (handle_response d c)) d = None)
        \<and> (waiter_of c d = None \<longrightarrow>
              heap (snd (handle_response d c)) = heap c
              \<and> callbacks (snd (handle_response d c)) = callbacks c)
        \<and> stderr (snd (handle_response d c))
            = (if dict_get d ''type'' = JStr ''error''
               then stderr c @ [ErrorLog (dict_get d ''error'')] else stderr c)))"
proof (cases "dict_get d ''type'' = JStr ''message''")
  case True
  let ?hs = "case str_key (dict_get d ''topic'') of
                     Inr (Some t) \<Rightarrow> (case map_of (message_handlers c) t of
                                        Some hs \<Rightarrow> hs | None \<Rightarrow> [])
                   | _ \<Rightarrow> []"
  have raises: "handle_response d c = (Some e, c)" if "str_key (dict_get d ''topic'') = Inl e" for e
    using True that by (simp add: handle_response_def)
  have disp: "handle_response d c = run_handlers ?hs d c"
    if "\<forall>e. str_key (dict_get d ''topic'') \<noteq> Inl e"
    using True that by (simp add: handle_response_def split: sum.splits option.splits)
  have sn: "snd (handle_response d c) = snd (run_handlers ?hs d c)"
  proof (cases "str_key (dict_get d ''topic'')")
    case (Inl e)
    with raises [OF Inl] show ?thesis by simp
  next
    case (Inr k)
    then have "\<forall>e. str_key (dict_get d ''topic'') \<noteq> Inl e" by simp
    from disp [OF this] show ?thesis by simp
  qed
  have F: "callbacks (snd (handle_response d c)) = callbacks c
      \<and> heap (snd (handle_response d c)) = heap c
      \<and> (\<exists>es. stderr (snd (handle_response d c)) = stderr c @ map HandlerErrorLog es)"
    unfolding sn using run_handlers_log [of ?hs d c] run_handlers_frame [of ?hs d c] by simp
  from True raises disp F show ?thesis by blast
next
  case False
  have log: "stderr (report_error d s)
      = (if dict_get d ''type'' = JStr ''error''
         then stderr s @ [ErrorLog (dict_get d ''error'')] else stderr s)" for s
    by (simp add: report_error_def)
  have raises: "handle_response d c = (Some e, c)"
    if "int_key (dict_get d ''request_id'') = Inl e" for e
  proof -
    from that have "dict_get d ''request_id'' \<noteq> JNull" by auto
    with False that show ?thesis by (simp add: handle_response_def Let_def)
  qed
  have known: "heap (snd (handle_response d c))
                  = (heap c)(a := \<lparr> result = dict_update (result (heap c a)) d, event = True \<rparr>)
        \<and> waiter_of (snd (handle_response d c)) d = None
        \<and> fst (handle_response d c) = None
        \<and> calls (snd (handle_response d c)) = calls c
        \<and> stderr (snd (handle_response d c)) = stderr (report_error d c)"
    if w: "waiter_of c d = Some a" for a
  proof -
    from w obtain n where nn: "dict_get d ''request_id'' \<noteq> JNull"
      and k: "int_key (dict_get d ''request_id'') = Inr (Some n)"
      and m: "map_of (callbacks c) n = Some (Callback a)" by (rule waiter_ofD)
    note hr = handle_response_known [OF False nn k m]
    have "waiter_of (snd (handle_response d c)) d = None"
      using waiter_of_after [of "snd (handle_response d c)" n c d] k by (simp add: hr)
    then show ?thesis by (simp add: hr log)
  qed
  have unknown: "handle_response d c = (None, report_error d c)"
    if "waiter_of c d = None" and "\<forall>e. int_key (dict_get d ''request_id'') \<noteq> Inl e"
    using that False
    by (auto simp: handle_response_def waiter_of_def Let_def
        split: sum.splits option.splits callback.splits)
  have hashable: "fst (handle_response d c) = None
        \<and> calls (snd (handle_response d c)) = calls c
        \<and> (\<forall>a. waiter_of c d = Some a \<longrightarrow>
              heap (snd (handle_response d c))
                = (heap c)(a := \<lparr> result = dict_update (result (heap c a)) d, event = True \<rparr>)
              \<and> waiter_of (snd (handle_response d c)) d = None)
        \<and> (waiter_of c d = None \<longrightarrow>
              heap (snd (handle_response d c)) = heap c
              \<and> callbacks (snd (handle_response d c)) = callbacks c)
        \<and> stderr (snd (handle_response d c))
            = (if dict_get d ''type'' = JStr ''error''
               then stderr c @ [ErrorLog (dict_get d ''error'')] else stderr c)"
    if h: "\<forall>e. int_key (dict_get d ''request_id'') \<noteq> Inl e"
  proof (cases "waiter_of c d")
    case None
    with unknown [OF None h] show ?thesis by (simp add: log)
  next
    case (Some a)
    with known [OF Some] show ?thesis by (simp add: log)
  qed
  have cl: "calls (snd (handle_response d c)) = calls c"
  proof (cases "int_key (dict_get d ''request_id'')")
    case (Inl e)
    with raises [OF Inl] show ?thesis by simp
  next
    case (Inr k)
    then have "\<forall>e. int_key (dict_get d ''request_id'') \<noteq> Inl e" by simp
    from hashable [OF this] show ?thesis by simp
  qed
  from False raises hashable cl show ?thesis by blast
qed

theorem dispatcher_classification_witness:
  "stderr (snd (handle_response (typed_error_response 7) two_pending))
     = [ErrorLog (JStr ''no such topic'')]
   \<and> callbacks (snd (handle_response (typed_error_response 7) two_pending))
     = callbacks two_pending
   \<and> callbacks (snd (handle_response (push_message ''events'' (JStr ''x'')) two_pending))
     = callbacks two_pending
   \<and> handle_response bad_id_error two_pending
     = (Some (TypeError ''unhashable type: list''), two_pending)
   \<and> handle_response bad_topic_message two_pending
     = (Some (TypeError ''unhashable type: list''), two_pending)"
proof -
  have t: "\<forall>e. int_key (dict_get (typed_error_response 7) ''request_id'') \<noteq> Inl e"
    by (simp add: typed_error_response_def dict_get_def)
  have ty: "dict_get (typed_error_response 7) ''type'' = JStr ''error''"
    "dict_get (typed_error_response 7) ''type'' \<noteq> JStr ''message''"
    "dict_get (typed_error_response 7) ''error'' = JStr ''no such topic''"
    "dict_get (push_message ''events'' (JStr ''x'')) ''type'' = JStr ''message''"
    by (simp_all add: typed_error_response_def push_message_def dict_get_def)
  have w: "waiter_of two_pending (typed_error_response 7) = None"
    by (simp add: waiter_of_def typed_error_response_def two_pending_def init_def dict_get_def)
  have s: "stderr two_pending = []" by (simp add: two_pending_def init_def)
  have b: "dict_get bad_id_error ''type'' \<noteq> JStr ''message''"
    "int_key (dict_get bad_id_error ''request_id'') = Inl (TypeError ''unhashable type: list'')"
    "dict_get bad_topic_message ''type'' = JStr ''message''"
    "str_key (dict_get bad_topic_message ''topic'') = Inl (TypeError ''unhashable type: list'')"
    by (simp_all add: bad_id_error_def bad_topic_message_def dict_get_def)
  from dispatcher_classification [of "typed_error_response 7" two_pending] ty t w s
  have a: "stderr (snd (handle_response (typed_error_response 7) two_pending))
     = [ErrorLog (JStr ''no such topic'')]
   \<and> callbacks (snd (handle_response (typed_error_response 7) two_pending))
     = callbacks two_pending" by simp
  from dispatcher_classification [of "push_message ''events'' (JStr ''x'')" two_pending] ty
  have p: "callbacks (snd (handle_response (push_message ''events'' (JStr ''x'')) two_pending))
     = callbacks two_pending" by blast
  from dispatcher_classification [of bad_id_error two_pending] b(1,2)
  have r1: "handle_response bad_id_error two_pending
     = (Some (TypeError ''unhashable type: list''), two_pending)" by blast
  from dispatcher_classification [of bad_topic_message two_pending] b(3,4)
  have r2: "handle_response bad_topic_message two_pending
     = (Some (TypeError ''unhashable type: list''), two_pending)" by blast
  from a p r1 r2 show ?thesis by simp
qed

subsection \<open>The end of the stream\<close>

lemma feed_dead: "\<not> reader_alive c \<Longrightarrow> feed loads ls c = c"
  by (cases ls) simp_all

text \<open>
  C2 as stated fails: the code has no \<open>ConnectionLost\<close>. With two requests pending,
  the end of the stream leaves both waiters registered and their events unset, and
  only clears \<open>running\<close>; a \<open>ping\<close> invoked afterwards writes its command and fails
  with \<open>TimeoutError\<close> after its wait.
\<close>

theorem stream_end_leaves_waiters_pending:
  "callbacks (read_responses example_loads [] None two_pending) = [(1, Callback 0), (2, Callback 1)]
   \<and> \<not> event (heap (read_responses example_loads [] None two_pending) 0)
   \<and> \<not> event (heap (read_responses example_loads [] None two_pending) 1)
   \<and> \<not> running (read_responses example_loads [] None two_pending)
   \<and> fst (ping example_loads [] (read_responses example_loads [] None two_pending))
       = Inl (TimeoutError ''Ping timeout'')
   \<and> stdin (snd (ping example_loads [] (read_responses example_loads [] None two_pending)))
       = stdin two_pending @ [[(''op'', JStr ''ping''), (''request_id'', JInt 3)]]"
  by (simp add: read_responses_def end_of_stream_def reader_exit_def two_pending_def init_def
      ping_def send_and_wait_def new_waiter_def send_def Let_def)

text \<open>
  C2, as the code has it. When the read loop observes the end of the stream or a read
  fault, it prints the fault and clears \<open>running\<close>, and the thread ends: the
  registry and every waiter are as before, so each pending caller runs into its own
  timeout. An operation invoked afterwards still takes the next id, registers its
  waiter and, as long as the pipe to the broker takes the line, writes its command;
  no line is read any more, so after its wait it finds its result empty.
\<close>

theorem stream_end_only_clears_running:
  assumes "reader_alive c"
  shows "callbacks (end_of_stream fault c) = callbacks c
       \<and> heap (end_of_stream fault c) = heap c
       \<and> stdin (end_of_stream fault c) = stdin c
       \<and> \<not> running (end_of_stream fault c)
       \<and> \<not> reader_alive (end_of_stream fault c)
       \<and> (\<not> stdin_closed c \<and> \<not> stdin_broken c \<longrightarrow>
            fst (send_and_wait loads command inbound (end_of_stream fault c)) = Inr []
            \<and> stdin (snd (send_and_wait loads command inbound (end_of_stream fault c)))
                = stdin c @ [dict_set ''request_id'' (JInt (request_id c + 1)) command]
            \<and> map_of (callbacks (snd (send_and_wait loads command inbound (end_of_stream fault c))))
                  (request_id c + 1) = Some (Callback (next_addr c)))"
proof -
  let ?c = "end_of_stream fault c"
  have f: "callbacks ?c = callbacks c" "heap ?c = heap c" "stdin ?c = stdin c"
    "\<not> running ?c" "\<not> reader_alive ?c" "request_id ?c = request_id c"
    "next_addr ?c = next_addr c" "stdin_closed ?c = stdin_closed c"
    "stdin_broken ?c = stdin_broken c"
    using assms
    by (simp_all add: end_of_stream_def reader_exit_def Let_def split: option.splits)
  have "fst (send_and_wait loads command inbound ?c) = Inr []
      \<and> stdin (snd (send_and_wait loads command inbound ?c))
          = stdin c @ [dict_set ''request_id'' (JInt (request_id c + 1)) command]
      \<and> map_of (callbacks (snd (send_and_wait loads command inbound ?c)))
            (request_id c + 1) = Some (Callback (next_addr c))"
    if "\<not> stdin_closed c" "\<not> stdin_broken c"
    using that f
    by (simp add: send_and_wait_def new_waiter_def send_def Let_def feed_dead map_of_dict_set)
  with f show ?thesis by blast
qed

theorem stream_end_only_clears_running_witness:
  "callbacks (end_of_stream (Some (ValueError ''read of closed file'')) two_pending)
     = callbacks two_pending
   \<and> fst (send_and_wait example_loads [(''op'', JStr ''ping'')] [ok_line]
            (end_of_stream (Some (ValueError ''read of closed file'')) two_pending)) = Inr []"
proof -
  have a: "reader_alive two_pending" "\<not> stdin_closed two_pending" "\<not> stdin_broken two_pending"
    by (simp_all add: two_pending_def init_def)
  from stream_end_only_clears_running [OF a(1)] a(2,3) show ?thesis by blast
qed

subsection \<open>Timeouts\<close>

text \<open>
  While lines are read, the waiter at address \<open>a\<close> registered under the id \<open>n\<close>
  either is still registered or has its event set, and its result is empty unless its
  event is set.
\<close>

lemma handle_response_pending:
  assumes "result (heap c a) \<noteq> [] \<longrightarrow> event (heap c a)"
    and "map_of (callbacks c) n = Some (Callback a) \<or> event (heap c a)"
  shows "(result (heap (snd (handle_response d c)) a) \<noteq> [] \<longrightarrow>
            event (heap (snd (handle_response d c)) a))
       \<and> (map_of (callbacks (snd (handle_response d c))) n = Some (Callback a)
            \<or> event (heap (snd (handle_response d c)) a))"
proof (cases "dict_get d ''type'' = JStr ''message''")
  case True
  then have "callbacks (snd (handle_response d c)) = callbacks c
      \<and> heap (snd (handle_response d c)) = heap c"
    by (simp add: handle_response_def run_handlers_frame split: sum.splits option.splits)
  with assms show ?thesis by simp
next
  case False
  show ?thesis
  proof (cases "int_key (dict_get d ''request_id'')")
    case (Inl e)
    with False assms show ?thesis by (simp add: handle_response_def Let_def)
  next
    case (Inr k)
    show ?thesis
    proof (cases k)
      case None
      with Inr False assms show ?thesis by (simp add: handle_response_def Let_def)
    next
      case (Some m)
      show ?thesis
      proof (cases "map_of (callbacks c) m")
        case None
        with Some Inr False assms show ?thesis by (simp add: handle_response_def Let_def)
      next
        case cb: (Some f)
        obtain b where f: "f = Callback b" by (cases f)
        have rid: "dict_get d ''request_id'' \<noteq> JNull" using Inr Some by auto
        have hr: "snd (handle_response d c) =
            report_error d (c\<lparr>callbacks := dict_del m (callbacks c),
              heap := (heap c)(b := \<lparr> result = dict_update (result (heap c b)) d,
                                       event = True \<rparr>)\<rparr>)"
          using False Inr Some cb f rid by (simp add: handle_response_def Let_def)
        show ?thesis
        proof (cases "b = a")
          case True
          then show ?thesis by (simp add: hr)
        next
          case nb: False
          show ?thesis
          proof (cases "m = n")
            case True
            with cb f nb assms(2) have "event (heap c a)" by auto
            with nb show ?thesis by (simp add: hr)
          next
            case False
            with nb assms show ?thesis by (simp add: hr map_of_dict_del)
          qed
        qed
      qed
    qed
  qed
qed

lemma read_line_pending:
  assumes "result (heap c a) \<noteq> [] \<longrightarrow> event (heap c a)"
    and "map_of (callbacks c) n = Some (Callback a) \<or> event (heap c a)"
  shows "(result (heap (snd (read_line loads line c)) a) \<noteq> [] \<longrightarrow>
            event (heap (snd (read_line loads line c)) a))
       \<and> (map_of (callbacks (snd (read_line loads line c))) n = Some (Callback a)
            \<or> event (heap (snd (read_line loads line c)) a))"
proof -
  let ?dh = "decode_and_handle loads (strip line) c"
  have dh: "(result (heap (snd ?dh) a) \<noteq> [] \<longrightarrow> event (heap (snd ?dh) a))
       \<and> (map_of (callbacks (snd ?dh)) n = Some (Callback a) \<or> event (heap (snd ?dh) a))"
    using assms handle_response_pending [OF assms]
    by (simp add: decode_and_handle_def split: sum.splits json.splits)
  obtain r c1 where e: "?dh = (r, c1)" by (cases ?dh)
  show ?thesis
    using dh e assms by (cases r) (simp_all add: read_line_def Let_def)
qed

lemma feed_pending:
  assumes "result (heap c a) \<noteq> [] \<longrightarrow> event (heap c a)"
    and "map_of (callbacks c) n = Some (Callback a) \<or> event (heap c a)"
  shows "(result (heap (feed loads ls c) a) \<noteq> [] \<longrightarrow> event (heap (feed loads ls c) a))
       \<and> (map_of (callbacks (feed loads ls c)) n = Some (Callback a)
            \<or> event (heap (feed loads ls c) a))"
  using assms
proof (induction ls arbitrary: c)
  case Nil
  then show ?case by simp
next
  case (Cons l ls)
  obtain r c1 where rl: "read_line loads l c = (r, c1)" by (cases "read_line loads l c")
  from read_line_pending [OF Cons.prems, of loads l] rl
  have p: "result (heap c1 a) \<noteq> [] \<longrightarrow> event (heap c1 a)"
    "map_of (callbacks c1) n = Some (Callback a) \<or> event (heap c1 a)" by simp_all
  show ?case
  proof (cases "reader_alive c")
    case False
    with Cons.prems show ?thesis by simp
  next
    case True
    show ?thesis
    proof (cases r)
      case None
      with True rl Cons.IH [OF p] show ?thesis by simp
    next
      case (Some e)
      with True rl p show ?thesis by (simp add: reader_exit_def Let_def)
    qed
  qed
qed

lemma send_and_wait_timeout:
  assumes "\<not> stdin_closed c" and "\<not> stdin_broken c"
    and "\<not> event (heap (snd (send_and_wait loads command inbound c)) (next_addr c))"
  shows "fst (send_and_wait loads command inbound c) = Inr []
       \<and> map_of (callbacks (snd (send_and_wait loads command inbound c))) (request_id c + 1)
           = Some (Callback (next_addr c))"
proof -
  let ?a = "next_addr c"
  let ?n = "request_id c + 1"
  let ?c2 = "c\<lparr>heap := (heap c)(?a := \<lparr> result = [], event = False \<rparr>),
               next_addr := ?a + 1, request_id := ?n,
               callbacks := dict_set ?n (Callback ?a) (callbacks c),
               stdin := stdin c @ [dict_set ''request_id'' (JInt ?n) command]\<rparr>"
  have sw: "send_and_wait loads command inbound c
      = (Inr (result (heap (feed loads inbound ?c2) ?a)), feed loads inbound ?c2)"
    using assms(1,2) by (simp add: send_and_wait_def new_waiter_def send_def Let_def)
  have "result (heap ?c2 ?a) \<noteq> [] \<longrightarrow> event (heap ?c2 ?a)"
    and "map_of (callbacks ?c2) ?n = Some (Callback ?a) \<or> event (heap ?c2 ?a)"
    by (simp_all add: map_of_dict_set)
  from feed_pending [OF this, of loads inbound] assms(3) show ?thesis
    unfolding sw by auto
qed

text \<open>
  C4 as stated fails: a \<open>publish\<close> that gets no response raises \<open>TimeoutError\<close>, but
  its entry is still in \<open>self.callbacks\<close> after the call; nothing in the code removes
  the entry of a request that timed out. An \<open>unsubscribe\<close> that gets no response
  does not raise at all and returns the empty dict.
\<close>

theorem timed_out_publish_stays_registered:
  "fst (publish example_loads ''t'' (JStr ''hello'') None [] init)
     = Inl (TimeoutError ''Publish timeout'')
   \<and> callbacks (snd (publish example_loads ''t'' (JStr ''hello'') None [] init))
     = [(1, Callback 0)]
   \<and> fst (unsubscribe example_loads ''t'' [] init) = Inr []"
  by (simp add: publish_def unsubscribe_def remove_handlers_def send_and_wait_def
      new_waiter_def send_def init_def Let_def)

text \<open>
  C4, as the code has it. Let the pipe to the broker take the command. If the wait of
  \<open>publish\<close>, \<open>subscribe\<close> or \<open>ping\<close> ends without a response, that is with the
  waiter's event unset, whatever other lines were read in the meantime, then the call
  fails with \<open>TimeoutError\<close>. The pending entry is not removed: after the call, also
  after an \<open>unsubscribe\<close> without response, the registry still holds the request's id
  with its waiter.
\<close>

theorem timeout_keeps_entry:
  assumes "\<not> stdin_closed c" and "\<not> stdin_broken c"
  shows "(\<not> event (heap (snd (publish loads topic payload metadata inbound c)) (next_addr c)) \<longrightarrow>
            fst (publish loads topic payload metadata inbound c)
              = Inl (TimeoutError ''Publish timeout'')
          \<and> map_of (callbacks (snd (publish loads topic payload metadata inbound c)))
                (request_id c + 1) = Some (Callback (next_addr c)))
       \<and> (\<not> event (heap (snd (subscribe loads topic h inbound c)) (next_addr c)) \<longrightarrow>
            fst (subscribe loads topic h inbound c) = Inl (TimeoutError ''Subscribe timeout'')
          \<and> map_of (callbacks (snd (subscribe loads topic h inbound c)))
                (request_id c + 1) = Some (Callback (next_addr c)))
       \<and> (\<not> event (heap (snd (ping loads inbound c)) (next_addr c)) \<longrightarrow>
            fst (ping loads inbound c) = Inl (TimeoutError ''Ping timeout'')
          \<and> map_of (callbacks (snd (ping loads inbound c)))
                (request_id c + 1) = Some (Callback (next_addr c)))
       \<and> (\<not> event (heap (snd (unsubscribe loads topic inbound c)) (next_addr c)) \<longrightarrow>
            map_of (callbacks (snd (unsubscribe loads topic inbound c)))
                (request_id c + 1) = Some (Callback (next_addr c)))"
proof -
  have gen: "fst (send_and_wait loads cmd inbound s) = Inr []
       \<and> map_of (callbacks (snd (send_and_wait loads cmd inbound s))) (request_id c + 1)
           = Some (Callback (next_addr c))"
    if "\<not> event (heap (snd (send_and_wait loads cmd inbound s)) (next_addr c))"
      and "stdin_closed s = stdin_closed c" and "stdin_broken s = stdin_broken c"
      and "next_addr s = next_addr c" and "request_id s = request_id c"
    for cmd s
    using send_and_wait_timeout [of s loads cmd inbound] that assms by simp
  let ?pc = "[(''op'', JStr ''publish''), (''topic'', JStr topic), (''payload'', payload),
              (''metadata'', JObj (case metadata of None \<Rightarrow> [] | Some m \<Rightarrow> m))]"
  let ?sc = "[(''op'', JStr ''subscribe''), (''topic'', JStr topic)]"
  have psnd: "snd (publish loads topic payload metadata inbound c)
      = snd (send_and_wait loads ?pc inbound c)"
    by (simp add: publish_def split: prod.splits sum.splits)
  have P: "fst (publish loads topic payload metadata inbound c)
              = Inl (TimeoutError ''Publish timeout'')
          \<and> map_of (callbacks (snd (publish loads topic payload metadata inbound c)))
                (request_id c + 1) = Some (Callback (next_addr c))"
    if "\<not> event (heap (snd (publish loads topic payload metadata inbound c)) (next_addr c))"
  proof -
    from that have "\<not> event (heap (snd (send_and_wait loads ?pc inbound c)) (next_addr c))"
      unfolding psnd .
    from gen [OF this] have g: "fst (send_and_wait loads ?pc inbound c) = Inr []"
      "map_of (callbacks (snd (send_and_wait loads ?pc inbound c))) (request_id c + 1)
           = Some (Callback (next_addr c))" by simp_all
    from g(1) have "fst (publish loads topic payload metadata inbound c)
              = Inl (TimeoutError ''Publish timeout'')"
      by (cases "send_and_wait loads ?pc inbound c") (simp add: publish_def)
    with g(2) show ?thesis unfolding psnd by simp
  qed
  let ?r = "register_handler topic h c"
  have rf: "stdin_closed ?r = stdin_closed c" "stdin_broken ?r = stdin_broken c"
    "next_addr ?r = next_addr c" "request_id ?r = request_id c"
    by (simp_all add: register_handler_def)
  have ssnd: "snd (subscribe loads topic h inbound c) = snd (send_and_wait loads ?sc inbound ?r)"
    by (simp add: subscribe_def split: prod.splits sum.splits)
  have S: "fst (subscribe loads topic h inbound c) = Inl (TimeoutError ''Subscribe timeout'')
          \<and> map_of (callbacks (snd (subscribe loads topic h inbound c)))
                (request_id c + 1) = Some (Callback (next_addr c))"
    if "\<not> event (heap (snd (subscribe loads topic h inbound c)) (next_addr c))"
  proof -
    from that have "\<not> event (heap (snd (send_and_wait loads ?sc inbound ?r)) (next_addr c))"
      unfolding ssnd .
    from gen [OF this rf] have g: "fst (send_and_wait loads ?sc inbound ?r) = Inr []"
      "map_of (callbacks (snd (send_and_wait loads ?sc inbound ?r))) (request_id c + 1)
           = Some (Callback (next_addr c))" by simp_all
    from g(1) have "fst (subscribe loads topic h inbound c)
              = Inl (TimeoutError ''Subscribe timeout'')"
      by (cases "send_and_wait loads ?sc inbound ?r") (simp add: subscribe_def)
    with g(2) show ?thesis unfolding ssnd by simp
  qed
  let ?gc = "[(''op'', JStr ''ping'')]"
  have gsnd: "snd (ping loads inbound c) = snd (send_and_wait loads ?gc inbound c)"
    by (simp add: ping_def split: prod.splits sum.splits)
  have G: "fst (ping loads inbound c) = Inl (TimeoutError ''Ping timeout'')
          \<and> map_of (callbacks (snd (ping loads inbound c)))
                (request_id c + 1) = Some (Callback (next_addr c))"
    if "\<not> event (heap (snd (ping loads inbound c)) (next_addr c))"
  proof -
    from that have "\<not> event (heap (snd (send_and_wait loads ?gc inbound c)) (next_addr c))"
      unfolding gsnd .
    from gen [OF this] have g: "fst (send_and_wait loads ?gc inbound c) = Inr []"
      "map_of (callbacks (snd (send_and_wait loads ?gc inbound c))) (request_id c + 1)
           = Some (Callback (next_addr c))" by simp_all
    from g(1) have "fst (ping loads inbound c) = Inl (TimeoutError ''Ping timeout'')"
      by (cases "send_and_wait loads ?gc inbound c") (simp add: ping_def)
    with g(2) show ?thesis unfolding gsnd by simp
  qed
  let ?u = "remove_handlers topic c"
  have uf: "stdin_closed ?u = stdin_closed c" "stdin_broken ?u = stdin_broken c"
    "next_addr ?u = next_addr c" "request_id ?u = request_id c"
    by (simp_all add: remove_handlers_def)
  have U: "map_of (callbacks (snd (unsubscribe loads topic inbound c)))
                (request_id c + 1) = Some (Callback (next_addr c))"
    if "\<not> event (heap (snd (unsubscribe loads topic inbound c)) (next_addr c))"
    using gen [OF _ uf, of "[(''op'', JStr ''unsubscribe''), (''topic'', JStr topic)]"] that
    by (simp add: unsubscribe_def)
  from P S G U show ?thesis by blast
qed

theorem timeout_keeps_entry_witness:
  "fst (ping example_loads [push_line] two_pending) = Inl (TimeoutError ''Ping timeout'')
   \<and> map_of (callbacks (snd (ping example_loads [push_line] two_pending))) 3
       = Some (Callback 2)"
proof -
  have a: "\<not> stdin_closed two_pending" "\<not> stdin_broken two_pending"
    "request_id two_pending + 1 = 3" "next_addr two_pending = 2"
    by (simp_all add: two_pending_def init_def)
  have s: "strip push_line = push_line"
    by (simp add: strip_def push_line_def dq_def isspace_def)
  have l: "example_loads push_line = Inr (JObj (push_message ''events'' (JStr ''x'')))"
    by (simp add: example_loads_def push_line_def ok_line_def error_line_def dq_def)
  have ne: "push_line \<noteq> []" by (simp add: push_line_def)
  have e: "\<not> event (heap (snd (ping example_loads [push_line] two_pending)) 2)"
    by (simp add: ping_def send_and_wait_def new_waiter_def send_def two_pending_def init_def
        Let_def read_line_def s l ne decode_and_handle_def handle_response_def
        push_message_def dict_get_def)
  from timeout_keeps_entry [OF a(1,2), of example_loads] e a(3,4) show ?thesis by simp
qed

subsection \<open>The outcome of a resolved call\<close>

lemma dict_set_nonempty: "dict_set k v d \<noteq> []"
  by (cases d) auto

lemma dict_update_nonempty: "other \<noteq> [] \<Longrightarrow> dict_update d other \<noteq> []"
  unfolding dict_update_def
proof (induction other arbitrary: d rule: rev_induct)
  case Nil
  then show ?case by simp
next
  case (snoc p ps)
  then show ?case by (simp add: dict_set_nonempty)
qed

lemma dict_set_fresh: "k \<notin> fst ` set d \<Longrightarrow> dict_set k v d = d @ [(k, v)]"
  by (induction d) auto

lemma dict_update_distinct:
  "distinct (map fst (d @ other)) \<Longrightarrow> dict_update d other = d @ other"
  unfolding dict_update_def
proof (induction other arbitrary: d)
  case Nil
  then show ?case by simp
next
  case (Cons p ps)
  have fresh: "fst p \<notin> fst ` set d" using Cons.prems by auto
  have "distinct (map fst ((d @ [p]) @ ps))" using Cons.prems by auto
  from Cons.IH [OF this] show ?case by (simp add: dict_set_fresh [OF fresh])
qed

text \<open>A waiter whose event is set holds a result that is not empty.\<close>

lemma call_callback_filled:
  assumes "d \<noteq> []" and "event (heap c a) \<longrightarrow> result (heap c a) \<noteq> []"
  shows "event (heap (call_callback cb d c) a) \<longrightarrow> result (heap (call_callback cb d c) a) \<noteq> []"
  using assms by (cases cb) (simp add: dict_update_nonempty)

lemma handle_response_filled:
  assumes "event (heap c a) \<longrightarrow> result (heap c a) \<noteq> []"
  shows "event (heap (snd (handle_response d c)) a) \<longrightarrow>
           result (heap (snd (handle_response d c)) a) \<noteq> []"
proof (cases "dict_get d ''type'' = JStr ''message''")
  case True
  then have "heap (snd (handle_response d c)) = heap c"
    by (simp add: handle_response_def run_handlers_frame split: sum.splits option.splits)
  with assms show ?thesis by simp
next
  case False
  show ?thesis
  proof (cases "dict_get d ''request_id'' = JNull")
    case True
    with False assms show ?thesis by (simp add: handle_response_def Let_def)
  next
    case rid: False
    then have ne: "d \<noteq> []" by (auto simp: dict_get_def)
    have "event (heap (call_callback cb d (c\<lparr>callbacks := k\<rparr>)) a) \<longrightarrow>
        result (heap (call_callback cb d (c\<lparr>callbacks := k\<rparr>)) a) \<noteq> []" for cb k
      using assms by (intro call_callback_filled [OF ne]) simp
    with False rid assms show ?thesis
      by (simp add: handle_response_def Let_def split: sum.splits option.splits)
  qed
qed

lemma feed_filled:
  assumes "event (heap c a) \<longrightarrow> result (heap c a) \<noteq> []"
  shows "event (heap (feed loads ls c) a) \<longrightarrow> result (heap (feed loads ls c) a) \<noteq> []"
  using assms
proof (induction ls arbitrary: c)
  case Nil
  then show ?case by simp
next
  case (Cons l ls)
  let ?dh = "decode_and_handle loads (strip l) c"
  have dh: "event (heap (snd ?dh) a) \<longrightarrow> result (heap (snd ?dh) a) \<noteq> []"
    using Cons.prems handle_response_filled [OF Cons.prems]
    by (simp add: decode_and_handle_def split: sum.splits json.splits)
  obtain q c0 where e: "?dh = (q, c0)" by (cases ?dh)
  obtain r c1 where rl: "read_line loads l c = (r, c1)" by (cases "read_line loads l c")
  have p: "event (heap c1 a) \<longrightarrow> result (heap c1 a) \<noteq> []"
    using dh e rl Cons.prems
    by (cases q) (auto simp: read_line_def Let_def split: if_splits)
  show ?case
  proof (cases "reader_alive c")
    case False
    with Cons.prems show ?thesis by simp
  next
    case True
    show ?thesis
    proof (cases r)
      case None
      with True rl Cons.IH [OF p] show ?thesis by simp
    next
      case (Some e)
      with True rl p show ?thesis by (simp add: reader_exit_def Let_def)
    qed
  qed
qed

text \<open>
  When the wait ends with the waiter completed, \<open>_send\<close> has not raised and the caller
  finds the waiter's record, which is not empty.
\<close>

lemma send_and_wait_resolved:
  assumes "heap (snd (send_and_wait loads command inbound c)) (next_addr c)
             = \<lparr> result = r, event = True \<rparr>"
  shows "fst (send_and_wait loads command inbound c) = Inr r \<and> r \<noteq> []"
proof -
  let ?a = "next_addr c"
  obtain a c1 where nw: "new_waiter c = (a, c1)" by (cases "new_waiter c")
  then have a: "a = ?a" and h1: "heap c1 ?a = \<lparr> result = [], event = False \<rparr>"
    by (auto simp: new_waiter_def)
  obtain q c2 where sd: "send command (Some (Callback a)) c1 = (q, c2)"
    by (cases "send command (Some (Callback a)) c1")
  with send_frame [of command "Some (Callback a)" c1] h1
  have h2: "heap c2 ?a = \<lparr> result = [], event = False \<rparr>" by simp
  show ?thesis
  proof (cases q)
    case (Inl e)
    with nw sd have "snd (send_and_wait loads command inbound c) = c2"
      by (simp add: send_and_wait_def)
    with assms h2 show ?thesis by simp
  next
    case (Inr n)
    with nw sd a have sw: "send_and_wait loads command inbound c
        = (Inr (result (heap (feed loads inbound c2) ?a)), feed loads inbound c2)"
      by (simp add: send_and_wait_def Let_def)
    have "event (heap c2 ?a) \<longrightarrow> result (heap c2 ?a) \<noteq> []" using h2 by simp
    from feed_filled [OF this, of loads inbound] assms show ?thesis
      unfolding sw by simp
  qed
qed

lemma response_completes_call:
  assumes "\<not> stdin_closed c" and "\<not> stdin_broken c" and "reader_alive c"
    and "strip line \<noteq> []" and "loads (strip line) = Inr (JObj d)"
    and "dict_get d ''type'' \<noteq> JStr ''message''"
    and "int_key (dict_get d ''request_id'') = Inr (Some (request_id c + 1))"
    and "distinct (map fst d)"
  shows "heap (snd (send_and_wait loads command [line] c)) (next_addr c)
           = \<lparr> result = d, event = True \<rparr>"
proof -
  let ?a = "next_addr c"
  let ?n = "request_id c + 1"
  define c2 where "c2 = c\<lparr>heap := (heap c)(?a := \<lparr> result = [], event = False \<rparr>),
               next_addr := ?a + 1, request_id := ?n,
               callbacks := dict_set ?n (Callback ?a) (callbacks c),
               stdin := stdin c @ [dict_set ''request_id'' (JInt ?n) command]\<rparr>"
  have sw: "snd (send_and_wait loads command [line] c) = feed loads [line] c2"
    using assms(1,2) by (simp add: send_and_wait_def new_waiter_def send_def Let_def c2_def)
  have nn: "dict_get d ''request_id'' \<noteq> JNull" using assms(7) by auto
  have m: "map_of (callbacks c2) ?n = Some (Callback ?a)"
    by (simp add: c2_def map_of_dict_set)
  have al: "reader_alive c2" using assms(3) by (simp add: c2_def)
  have em: "result (heap c2 ?a) = []" by (simp add: c2_def)
  have hr: "handle_response d c2 =
     (None, report_error d
       (c2\<lparr>callbacks := dict_del ?n (callbacks c2),
          heap := (heap c2)(?a := \<lparr> result = dict_update (result (heap c2 ?a)) d,
                                      event = True \<rparr>)\<rparr>))"
    by (rule handle_response_known [OF assms(6) nn assms(7) m])
  have u: "dict_update [] d = d" using dict_update_distinct [of "[]" d] assms(8) by simp
  have "heap (feed loads [line] c2) ?a = \<lparr> result = d, event = True \<rparr>"
    using assms(4,5) al by (simp add: read_line_def decode_and_handle_def hr em u)
  then show ?thesis by (simp only: sw)
qed

text \<open>
  C5 as stated fails for \<open>ping\<close> and \<open>unsubscribe\<close>, which never look at the status:
  a response with status \<open>error\<close> is returned to the caller as the result of the call.
\<close>

theorem ping_returns_error_response:
  "fst (ping example_loads [error_line] init) = Inr (error_response 1)
   \<and> fst (unsubscribe example_loads ''t'' [error_line] init) = Inr (error_response 1)"
proof -
  have s: "strip error_line = error_line"
    by (simp add: strip_def error_line_def dq_def isspace_def)
  have l: "example_loads error_line = Inr (JObj (error_response 1))"
    by (simp add: example_loads_def error_line_def ok_line_def dq_def)
  have ne: "error_line \<noteq> []" by (simp add: error_line_def)
  show ?thesis
    by (simp add: ping_def unsubscribe_def remove_handlers_def send_and_wait_def new_waiter_def
        send_def init_def Let_def read_line_def s l ne decode_and_handle_def handle_response_def
        error_response_def dict_get_def dict_del_def dict_update_def report_error_def)
qed

text \<open>
  C5, as the code has it. Let the wait of an operation end with its waiter completed,
  holding the response record \<open>r\<close>. Then \<open>publish\<close> and \<open>subscribe\<close> return the
  full record \<open>r\<close> if its status is \<open>ok\<close>, and otherwise fail with an \<open>Exception\<close>
  that carries the record's \<open>error\<close> value (a fixed message if the record has none);
  \<open>ping\<close> and \<open>unsubscribe\<close> return the full record \<open>r\<close> if its status is \<open>ok\<close>.
  The waiter holds the record \<open>d\<close> when the line read during the wait decodes to \<open>d\<close>,
  a response with the id of the request.
\<close>

theorem status_decides_outcome:
  "(heap (snd (publish loads topic payload metadata inbound c)) (next_addr c)
        = \<lparr> result = r, event = True \<rparr> \<longrightarrow>
      fst (publish loads topic payload metadata inbound c)
        = (if dict_get r ''status'' = JStr ''ok'' then Inr r
           else Inl (Exception (dict_get_default r ''error'' (JStr ''Publish failed'')))))
   \<and> (heap (snd (subscribe loads topic h inbound c)) (next_addr c)
        = \<lparr> result = r, event = True \<rparr> \<longrightarrow>
      fst (subscribe loads topic h inbound c)
        = (if dict_get r ''status'' = JStr ''ok'' then Inr r
           else Inl (Exception (dict_get_default r ''error'' (JStr ''Subscribe failed'')))))
   \<and> (heap (snd (ping loads inbound c)) (next_addr c) = \<lparr> result = r, event = True \<rparr>
        \<and> dict_get r ''status'' = JStr ''ok'' \<longrightarrow>
      fst (ping loads inbound c) = Inr r)
   \<and> (heap (snd (unsubscribe loads topic inbound c)) (next_addr c)
        = \<lparr> result = r, event = True \<rparr> \<and> dict_get r ''status'' = JStr ''ok'' \<longrightarrow>
      fst (unsubscribe loads topic inbound c) = Inr r)
   \<and> (\<not> stdin_closed c \<and> \<not> stdin_broken c \<and> reader_alive c
        \<and> strip line \<noteq> [] \<and> loads (strip line) = Inr (JObj d)
        \<and> dict_get d ''type'' \<noteq> JStr ''message''
        \<and> int_key (dict_get d ''request_id'') = Inr (Some (request_id c + 1))
        \<and> distinct (map fst d) \<longrightarrow>
      heap (snd (send_and_wait loads command [line] c)) (next_addr c)
        = \<lparr> result = d, event = True \<rparr>)"
proof -
  let ?pc = "[(''op'', JStr ''publish''), (''topic'', JStr topic), (''payload'', payload),
              (''metadata'', JObj (case metadata of None \<Rightarrow> [] | Some m \<Rightarrow> m))]"
  let ?sc = "[(''op'', JStr ''subscribe''), (''topic'', JStr topic)]"
  let ?gc = "[(''op'', JStr ''ping'')]"
  let ?uc = "[(''op'', JStr ''unsubscribe''), (''topic'', JStr topic)]"
  let ?r = "register_handler topic h c"
  let ?u = "remove_handlers topic c"
  have na: "next_addr ?r = next_addr c" "next_addr ?u = next_addr c"
    by (simp_all add: register_handler_def remove_handlers_def)
  have P: "fst (publish loads topic payload metadata inbound c)
        = (if dict_get r ''status'' = JStr ''ok'' then Inr r
           else Inl (Exception (dict_get_default r ''error'' (JStr ''Publish failed''))))"
    if w: "heap (snd (publish loads topic payload metadata inbound c)) (next_addr c)
        = \<lparr> result = r, event = True \<rparr>"
  proof -
    have "snd (publish loads topic payload metadata inbound c)
        = snd (send_and_wait loads ?pc inbound c)"
      by (simp add: publish_def split: prod.splits sum.splits)
    with w have "heap (snd (send_and_wait loads ?pc inbound c)) (next_addr c)
        = \<lparr> result = r, event = True \<rparr>" by simp
    from send_and_wait_resolved [OF this] show ?thesis
      by (cases "send_and_wait loads ?pc inbound c") (simp add: publish_def)
  qed
  have S: "fst (subscribe loads topic h inbound c)
        = (if dict_get r ''status'' = JStr ''ok'' then Inr r
           else Inl (Exception (dict_get_default r ''error'' (JStr ''Subscribe failed''))))"
    if w: "heap (snd (subscribe loads topic h inbound c)) (next_addr c)
        = \<lparr> result = r, event = True \<rparr>"
  proof -
    have "snd (subscribe loads topic h inbound c) = snd (send_and_wait loads ?sc inbound ?r)"
      by (simp add: subscribe_def split: prod.splits sum.splits)
    with w na have "heap (snd (send_and_wait loads ?sc inbound ?r)) (next_addr ?r)
        = \<lparr> result = r, event = True \<rparr>" by simp
    from send_and_wait_resolved [OF this] show ?thesis
      by (cases "send_and_wait loads ?sc inbound ?r") (simp add: subscribe_def)
  qed
  have G: "fst (ping loads inbound c) = Inr r"
    if w: "heap (snd (ping loads inbound c)) (next_addr c) = \<lparr> result = r, event = True \<rparr>"
  proof -
    have "snd (ping loads inbound c) = snd (send_and_wait loads ?gc inbound c)"
      by (simp add: ping_def split: prod.splits sum.splits)
    with w have "heap (snd (send_and_wait loads ?gc inbound c)) (next_addr c)
        = \<lparr> result = r, event = True \<rparr>" by simp
    from send_and_wait_resolved [OF this] show ?thesis
      by (cases "send_and_wait loads ?gc inbound c") (simp add: ping_def)
  qed
  have U: "fst (unsubscribe loads topic inbound c) = Inr r"
    if w: "heap (snd (unsubscribe loads topic inbound c)) (next_addr c)
        = \<lparr> result = r, event = True \<rparr>"
  proof -
    from w na have "heap (snd (send_and_wait loads ?uc inbound ?u)) (next_addr ?u)
        = \<lparr> result = r, event = True \<rparr>" by (simp add: unsubscribe_def)
    from send_and_wait_resolved [OF this] show ?thesis by (simp add: unsubscribe_def)
  qed
  from P S G U response_completes_call [of c line loads d command] show ?thesis by blast
qed

theorem status_decides_outcome_witness:
  "fst (publish example_loads ''t'' (JStr ''hello'') None [ok_line] init) = Inr (ok_response 1)
   \<and> fst (publish example_loads ''t'' (JStr ''hello'') None [error_line] init)
       = Inl (Exception (JStr ''no such topic''))"
proof -
  have s: "strip ok_line = ok_line" "strip error_line = error_line"
    by (simp_all add: strip_def ok_line_def error_line_def dq_def isspace_def)
  have l: "example_loads ok_line = Inr (JObj (ok_response 1))"
    "example_loads error_line = Inr (JObj (error_response 1))"
    by (simp_all add: example_loads_def error_line_def ok_line_def dq_def)
  have ne: "ok_line \<noteq> []" "error_line \<noteq> []" by (simp_all add: ok_line_def error_line_def)
  have a: "next_addr init = 0" by (simp add: init_def)
  have h1: "heap (snd (publish example_loads ''t'' (JStr ''hello'') None [ok_line] init))
              (next_addr init) = \<lparr> result = ok_response 1, event = True \<rparr>"
    by (simp add: publish_def send_and_wait_def new_waiter_def
        send_def init_def Let_def read_line_def s l ne decode_and_handle_def handle_response_def
        ok_response_def dict_get_def dict_del_def dict_update_def report_error_def)
  have h2: "heap (snd (publish example_loads ''t'' (JStr ''hello'') None [error_line] init))
              (next_addr init) = \<lparr> result = error_response 1, event = True \<rparr>"
    by (simp add: publish_def send_and_wait_def new_waiter_def
        send_def init_def Let_def read_line_def s l ne decode_and_handle_def handle_response_def
        error_response_def dict_get_def dict_get_default_def dict_del_def dict_update_def
        report_error_def)
  have st: "dict_get (ok_response 1) ''status'' = JStr ''ok''"
    "dict_get (error_response 1) ''status'' \<noteq> JStr ''ok''"
    "dict_get_default (error_response 1) ''error'' (JStr ''Publish failed'')
       = JStr ''no such topic''"
    by (simp_all add: ok_response_def error_response_def dict_get_def dict_get_default_def)
  note th1 = status_decides_outcome [where loads = example_loads and topic = "''t''"
      and payload = "JStr ''hello''" and metadata = None and inbound = "[ok_line]"
      and c = init and r = "ok_response 1"]
  note th2 = status_decides_outcome [where loads = example_loads and topic = "''t''"
      and payload = "JStr ''hello''" and metadata = None and inbound = "[error_line]"
      and c = init and r = "error_response 1"]
  from th1 h1 st(1)
  have r1: "fst (publish example_loads ''t'' (JStr ''hello'') None [ok_line] init)
      = Inr (ok_response 1)" by simp
  from th2 h2 st(2,3)
  have r2: "fst (publish example_loads ''t'' (JStr ''hello'') None [error_line] init)
       = Inl (Exception (JStr ''no such topic''))" by simp
  from r1 r2 show ?thesis by simp
qed

subsection \<open>Responses without a waiter\<close>

text \<open>
  C3 as stated fails for a response whose \<open>request_id\<close> is a list: no waiter is
  registered under it, but the lookup at line 79 raises \<open>TypeError\<close> (a list cannot be a
  key); the exception leaves the loop of \<open>_read_responses\<close>, the reader thread ends, and
  the response for request 1 on the next line reaches no waiter.
\<close>

theorem unhashable_request_id_raises:
  "waiter_of two_pending bad_id_response = None
   \<and> dict_get bad_id_response ''type'' \<noteq> JStr ''message''
   \<and> handle_response bad_id_response two_pending
       = (Some (TypeError ''unhashable type: list''), two_pending)
   \<and> \<not> reader_alive (feed example_loads [bad_id_line, ok_line] two_pending)
   \<and> callbacks (feed example_loads [bad_id_line, ok_line] two_pending) = callbacks two_pending
   \<and> heap (feed example_loads [bad_id_line, ok_line] two_pending) = heap two_pending"
proof -
  have s: "strip bad_id_line = bad_id_line"
    by (simp add: strip_def bad_id_line_def dq_def isspace_def)
  have l: "example_loads bad_id_line = Inr (JObj bad_id_response)"
    by (simp add: example_loads_def bad_id_line_def push_line_def ok_line_def error_line_def
        dq_def)
  have ne: "bad_id_line \<noteq> []" by (simp add: bad_id_line_def)
  have w: "waiter_of two_pending bad_id_response = None"
    by (simp add: waiter_of_def bad_id_response_def dict_get_def)
  have t: "dict_get bad_id_response ''type'' \<noteq> JStr ''message''"
    by (simp add: bad_id_response_def dict_get_def)
  have hr: "handle_response bad_id_response two_pending
       = (Some (TypeError ''unhashable type: list''), two_pending)"
    by (simp add: handle_response_def bad_id_response_def dict_get_def Let_def)
  have a: "reader_alive two_pending" by (simp add: two_pending_def init_def)
  have f: "feed example_loads [bad_id_line, ok_line] two_pending
      = reader_exit (Some (TypeError ''unhashable type: list'')) two_pending"
    using a by (simp add: read_line_def s l ne decode_and_handle_def hr)
  show ?thesis
    unfolding f using w t hr by (simp add: reader_exit_def)
qed

text \<open>
  C3, as the code has it. Let \<open>d\<close> be a response record (not a push message). If its
  \<open>request_id\<close> is absent, null or any value but a list or a dict (the wire protocol
  has an unsigned integer there), and no waiter is registered under it (an unknown id,
  a duplicate of a resolved one), the dispatcher returns without raising and changes
  nothing but the log, where a record of type \<open>error\<close> is printed: the registry, every
  waiter and the handler calls are as before. If a waiter is registered under it, that
  waiter is completed with the record and is gone from the registry afterwards, so a
  second copy of the record is dropped in the same way: a pending request is resolved at
  most once. If its \<open>request_id\<close> is a list or a dict, the lookup raises \<open>TypeError\<close> and
  the state is as before. A late response is not a response without a waiter: when the
  wait of a call has ended with the event unset, the waiter is still registered under the
  request's id, and a response with that id finds it.
\<close>

theorem unmatched_response_is_dropped:
  assumes "dict_get d ''type'' \<noteq> JStr ''message''"
  shows "((\<forall>e. int_key (dict_get d ''request_id'') \<noteq> Inl e) \<and> waiter_of c d = None \<longrightarrow>
            handle_response d c = (None, report_error d c))
       \<and> (\<forall>a. waiter_of c d = Some a \<longrightarrow>
            heap (snd (handle_response d c))
              = (heap c)(a := \<lparr> result = dict_update (result (heap c a)) d, event = True \<rparr>)
            \<and> waiter_of (snd (handle_response d c)) d = None
            \<and> handle_response d (snd (handle_response d c))
                = (None, report_error d (snd (handle_response d c))))
       \<and> (\<forall>e. int_key (dict_get d ''request_id'') = Inl e \<longrightarrow>
            handle_response d c = (Some e, c))
       \<and> (\<not> stdin_closed c \<and> \<not> stdin_broken c
            \<and> int_key (dict_get d ''request_id'') = Inr (Some (request_id c + 1))
            \<and> \<not> event (heap (snd (send_and_wait loads command inbound c)) (next_addr c)) \<longrightarrow>
            waiter_of (snd (send_and_wait loads command inbound c)) d = Some (next_addr c))"
proof -
  have drop: "handle_response d s = (None, report_error d s)"
    if "waiter_of s d = None" and "\<forall>e. int_key (dict_get d ''request_id'') \<noteq> Inl e" for s
    using that assms
    by (auto simp: handle_response_def waiter_of_def Let_def
        split: sum.splits option.splits callback.splits)
  have known: "heap (snd (handle_response d c))
              = (heap c)(a := \<lparr> result = dict_update (result (heap c a)) d, event = True \<rparr>)
            \<and> waiter_of (snd (handle_response d c)) d = None
            \<and> handle_response d (snd (handle_response d c))
                = (None, report_error d (snd (handle_response d c)))"
    if w: "waiter_of c d = Some a" for a
  proof -
    from handle_response_waiter [OF assms w] obtain n where
      k: "int_key (dict_get d ''request_id'') = Inr (Some n)"
      and h: "heap (snd (handle_response d c))
              = (heap c)(a := \<lparr> result = dict_update (result (heap c a)) d, event = True \<rparr>)"
      and cb: "callbacks (snd (handle_response d c)) = dict_del n (callbacks c)" by blast
    have gone: "waiter_of (snd (handle_response d c)) d = None"
      using waiter_of_after [OF cb, of d] k by simp
    have "\<forall>e. int_key (dict_get d ''request_id'') \<noteq> Inl e" using k by simp
    from drop [OF gone this] h gone show ?thesis by simp
  qed
  have raises: "handle_response d c = (Some e, c)"
    if "int_key (dict_get d ''request_id'') = Inl e" for e
  proof -
    from that have "dict_get d ''request_id'' \<noteq> JNull" by auto
    with assms that show ?thesis by (simp add: handle_response_def Let_def)
  qed
  have late: "waiter_of (snd (send_and_wait loads command inbound c)) d = Some (next_addr c)"
    if "\<not> stdin_closed c" and "\<not> stdin_broken c"
      and k: "int_key (dict_get d ''request_id'') = Inr (Some (request_id c + 1))"
      and "\<not> event (heap (snd (send_and_wait loads command inbound c)) (next_addr c))"
  proof -
    from send_and_wait_timeout [OF that(1,2,4)]
    have "map_of (callbacks (snd (send_and_wait loads command inbound c))) (request_id c + 1)
           = Some (Callback (next_addr c))" by simp
    with k show ?thesis by (simp add: waiter_of_def)
  qed
  from drop [of c] known raises late show ?thesis by blast
qed

theorem unmatched_response_is_dropped_witness:
  "handle_response (ok_response 7) two_pending = (None, two_pending)
   \<and> handle_response (ok_response 1) (snd (handle_response (ok_response 1) two_pending))
       = (None, snd (handle_response (ok_response 1) two_pending))
   \<and> waiter_of (snd (send_and_wait example_loads [(''op'', JStr ''ping'')] [] two_pending))
        (ok_response 3) = Some 2"
proof -
  have t: "dict_get (ok_response n) ''type'' \<noteq> JStr ''message''" for n
    by (simp add: ok_response_def dict_get_def)
  have k: "\<forall>e. int_key (dict_get (ok_response n) ''request_id'') \<noteq> Inl e" for n
    by (simp add: ok_response_def dict_get_def)
  have w7: "waiter_of two_pending (ok_response 7) = None"
    by (simp add: waiter_of_def two_pending_def ok_response_def dict_get_def init_def)
  have w1: "waiter_of two_pending (ok_response 1) = Some 0"
    by (simp add: waiter_of_def two_pending_def ok_response_def dict_get_def init_def)
  have r: "report_error (ok_response n) s = s" for n s
    by (simp add: report_error_def ok_response_def dict_get_def)
  have p: "\<not> stdin_closed two_pending" "\<not> stdin_broken two_pending"
    "int_key (dict_get (ok_response 3) ''request_id'') = Inr (Some (request_id two_pending + 1))"
    "next_addr two_pending = 2"
    by (simp_all add: two_pending_def init_def ok_response_def dict_get_def)
  have e: "\<not> event (heap (snd (send_and_wait example_loads [(''op'', JStr ''ping'')] []
      two_pending)) (next_addr two_pending))"
    by (simp add: send_and_wait_def new_waiter_def send_def two_pending_def init_def Let_def)
  note th7 = unmatched_response_is_dropped [where d = "ok_response 7" and c = two_pending, OF t]
  note th1 = unmatched_response_is_dropped [where d = "ok_response 1" and c = two_pending, OF t]
  note th3 = unmatched_response_is_dropped [where d = "ok_response 3" and c = two_pending
      and loads = example_loads and command = "[(''op'', JStr ''ping'')]" and inbound = "[]", OF t]
  from th7 k w7 r have a: "handle_response (ok_response 7) two_pending = (None, two_pending)"
    by simp
  from th1 w1 r have b:
    "handle_response (ok_response 1) (snd (handle_response (ok_response 1) two_pending))
       = (None, snd (handle_response (ok_response 1) two_pending))" by simp
  from th3 p e have c:
    "waiter_of (snd (send_and_wait example_loads [(''op'', JStr ''ping'')] [] two_pending))
        (ok_response 3) = Some 2" by simp
  from a b c show ?thesis by simp
qed

end
